theory Spec2Isabelle
  imports Complex_Main "HOL-Library.Monad_Syntax"
begin

section \<open>Numbers and memory\<close>

text \<open>
  The program is \<^verbatim>\<open>src/main.cpp\<close>: a two-layer feed-forward network trained by
  back-propagation. Its data are C++ \<^verbatim>\<open>float\<close>s in raw arrays indexed by \<^verbatim>\<open>size_t\<close>.

  \<^item> A \<^verbatim>\<open>float\<close> is a value of a type \<open>'a\<close> that carries the operations the code uses
    (\<open>+\<close>, \<open>-\<close>, \<open>*\<close>, \<open>0\<close>, \<open>1\<close>, \<open>\<le>\<close>) and nothing else: the functions below are
    polymorphic in it, and no law of arithmetic is assumed about it. They are read at
    two types: \<open>real\<close> (exact arithmetic, where a sum \<open>\<Sum>\<close> has a meaning that does not
    depend on the order of the additions), and \<open>ieee\<close> (below), which has the special
    values of IEEE 754. The one function whose claim depends on the rounding of finite
    numbers, \<open>randomFloat\<close>, is at type \<open>real\<close> with every operation rounded to
    binary32 (\<open>fl32\<close>).
  \<^item> \<^verbatim>\<open>expf\<close> belongs to the C library; every function that calls it takes it as the
    parameter \<open>expf\<close>. At type \<open>real\<close> it is \<open>exp\<close>.
  \<^item> A \<^verbatim>\<open>float*\<close> is the list of the cells it points to. Reading or writing a cell
    outside the list, and forming a pointer beyond one past its end, is undefined
    behaviour in C++: the result is \<open>None\<close>. The arrays a function reads and the
    array it writes are distinct lists (no aliasing), as they are at every call in
    the program.
  \<^item> A \<^verbatim>\<open>size_t\<close> is a \<open>nat\<close>. The indices the code computes are positions in
    allocated arrays, so they are below \<open>2 ^ 64\<close> whenever the access is defined; the
    one product that is not an index, the allocation size in the constructor, wraps
    modulo \<open>2 ^ 64\<close> (\<open>size_t_mul\<close>).
  \<^item> The \<^verbatim>\<open>int\<close> counter of the epoch loop is an \<open>int\<close> that must stay within
    \<open>INT_MAX\<close>: incrementing it beyond is undefined behaviour, \<open>None\<close>. An \<^verbatim>\<open>int\<close>
    has 32 bits and a \<^verbatim>\<open>size_t\<close> 64, as on the common 64-bit platforms.
\<close>

definition rd :: "'a list \<Rightarrow> nat \<Rightarrow> 'a option" where
  "rd p i = (if i < length p then Some (p ! i) else None)"

definition wr :: "'a list \<Rightarrow> nat \<Rightarrow> 'a \<Rightarrow> 'a list option" where
  "wr p i v = (if i < length p then Some (p[i := v]) else None)"

text \<open>\<^verbatim>\<open>&p[k]\<close> for a pointer that is only read through: the cells from \<open>k\<close> on.\<close>

definition ptr_add :: "'a list \<Rightarrow> nat \<Rightarrow> 'a list option" where
  "ptr_add p k = (if k \<le> length p then Some (drop k p) else None)"

text \<open>\<^verbatim>\<open>&p[k]\<close> for a pointer that is written through: the offset \<open>k\<close> into \<open>p\<close>.\<close>

definition ptr_offset :: "'a list \<Rightarrow> nat \<Rightarrow> nat option" where
  "ptr_offset p k = (if k \<le> length p then Some k else None)"

text \<open>
  \<^verbatim>\<open>new float[n]\<close> and \<^verbatim>\<open>alloca(n * sizeof(float))\<close>: \<open>n\<close> cells of indeterminate
  content. The program writes every cell before it reads it; the model fills them
  with \<open>0\<close>.
\<close>

definition new_float :: "nat \<Rightarrow> 'a::zero list" where
  "new_float n = replicate n 0"

definition size_t_mul :: "nat \<Rightarrow> nat \<Rightarrow> nat" where
  "size_t_mul a b = (a * b) mod 2 ^ 64"

definition INT_MAX :: int where
  "INT_MAX = 2147483647"

text \<open>The conversion of an \<^verbatim>\<open>int\<close> to \<^verbatim>\<open>size_t\<close> in \<^verbatim>\<open>epoch < epochCount\<close>.\<close>

definition size_t_of_int :: "int \<Rightarrow> nat" where
  "size_t_of_int e = nat (e mod 2 ^ 64)"

text \<open>
  \<^verbatim>\<open>for( size_t i = i0; i < n; ++i ) body\<close>, the body a state transformer that may be
  undefined.
\<close>

function for_loop :: "nat \<Rightarrow> nat \<Rightarrow> (nat \<Rightarrow> 's \<Rightarrow> 's option) \<Rightarrow> 's \<Rightarrow> 's option" where
  "for_loop i n body s =
     (if i < n
      then (case body i s of None \<Rightarrow> None | Some s' \<Rightarrow> for_loop (Suc i) n body s')
      else Some s)"
  by pat_completeness auto
termination
  by (relation "measure (\<lambda>(i, n, body, s). n - i)") auto

declare for_loop.simps [simp del]

section \<open>Transfer functions\<close>

text \<open>Lines 33--43. \<^verbatim>\<open>transfer\<close> is \<^verbatim>\<open>elu\<close>; the sigmoid pair is the one the spec
  names beside it.\<close>

definition sigmoid :: "('a \<Rightarrow> 'a) \<Rightarrow> 'a::{one,plus,uminus,inverse} \<Rightarrow> 'a" where
  "sigmoid expf fValue = 1 / (1 + expf (- fValue))"

definition sigmoidDerivative :: "'a::{one,minus,times} \<Rightarrow> 'a" where
  "sigmoidDerivative fValue = fValue * (1 - fValue)"

definition elu :: "('a \<Rightarrow> 'a) \<Rightarrow> 'a::{zero,one,minus,ord} \<Rightarrow> 'a" where
  "elu expf fValue = (if fValue \<ge> 0 then fValue else expf fValue - 1)"

definition eluDerivative :: "('a \<Rightarrow> 'a) \<Rightarrow> 'a::{zero,one,ord} \<Rightarrow> 'a" where
  "eluDerivative expf fValue = (if fValue \<ge> 0 then 1 else expf fValue)"

definition transfer :: "('a \<Rightarrow> 'a) \<Rightarrow> 'a::{zero,one,minus,ord} \<Rightarrow> 'a" where
  "transfer expf fValue = elu expf fValue"

definition transferDerivative :: "('a \<Rightarrow> 'a) \<Rightarrow> 'a::{zero,one,ord} \<Rightarrow> 'a" where
  "transferDerivative expf fValue = eluDerivative expf fValue"

section \<open>Random initialisation\<close>

text \<open>
  Lines 46--58. \<^verbatim>\<open>rand()\<close> and \<^verbatim>\<open>RAND_MAX\<close> belong to the C library: \<open>RAND_MAX\<close> is a
  parameter, and \<open>rand\<close> is a parameter that steps the generator's hidden state \<open>'g\<close>
  and returns the number drawn.

  The constructor computes in \<^verbatim>\<open>float\<close>, IEEE 754 binary32, and the interval its values
  fall in depends on the rounding. A \<^verbatim>\<open>float\<close> here is a \<open>real\<close> that is a binary32
  number: \<open>fl32 x\<close> is \<open>x\<close> rounded to binary32, to the nearest multiple of the unit in
  the last place of its binade (24 significant bits, the unit \<open>pow2 (- 149)\<close> for the
  subnormal numbers), a tie going to the even multiple (\<open>rne\<close>). Overflow to infinity is
  not modelled: the numbers rounded here are at most \<open>2 ^ 31\<close>. Every operation of
  \<open>randomFloat\<close> is rounded: the two conversions from \<^verbatim>\<open>int\<close>, the division, the
  product and the sum, and the literals \<^verbatim>\<open>0.4f\<close> and \<^verbatim>\<open>0.5f\<close> are the binary32
  numbers nearest to \<open>0.4\<close> and \<open>0.5\<close>. (The expression is evaluated in \<^verbatim>\<open>float\<close>
  precision, product and sum not fused, and a conversion from \<^verbatim>\<open>int\<close> rounds to
  nearest, as on the common platforms.)
\<close>

definition rne :: "real \<Rightarrow> int" where
  "rne x =
     (let f = \<lfloor>x\<rfloor> in
      if x - of_int f < 1 / 2 then f
      else if 1 / 2 < x - of_int f then f + 1
      else if even f then f else f + 1)"

definition pow2 :: "int \<Rightarrow> real" where
  "pow2 e = (if 0 \<le> e then 2 ^ nat e else 1 / 2 ^ nat (- e))"

definition binade :: "real \<Rightarrow> int" where
  "binade x = Max {e \<in> {- 126..127}. e = - 126 \<or> pow2 e \<le> \<bar>x\<bar>}"

definition fl32 :: "real \<Rightarrow> real" where
  "fl32 x = (let ulp = pow2 (binade x - 23) in ulp * of_int (rne (x / ulp)))"

definition randomFloat :: "nat \<Rightarrow> ('g \<Rightarrow> nat \<times> 'g) \<Rightarrow> 'g \<Rightarrow> real \<times> 'g" where
  "randomFloat RAND_MAX rand g =
     (case rand g of (r, g') \<Rightarrow>
        (fl32 (fl32 (fl32 (fl32 (real r) / fl32 (real RAND_MAX)) * fl32 0.4) + fl32 0.5), g'))"

definition randomize ::
  "nat \<Rightarrow> ('g \<Rightarrow> nat \<times> 'g) \<Rightarrow> real list \<Rightarrow> nat \<Rightarrow> 'g \<Rightarrow> (real list \<times> 'g) option" where
  "randomize RAND_MAX rand pValues count g =
     for_loop 0 count
       (\<lambda>i (p, g). case randomFloat RAND_MAX rand g of (v, g') \<Rightarrow>
           do { p' \<leftarrow> wr p i v; Some (p', g') })
       (pValues, g)"

section \<open>Layer\<close>

record 'a Layer =
  m_inputCount :: nat
  m_outputCount :: nat
  m_pWeights :: "'a list"
  m_pBiases :: "'a list"

text \<open>Lines 72--81, the constructor. It has no failing branch.\<close>

definition Layer_ctor ::
  "nat \<Rightarrow> ('g \<Rightarrow> nat \<times> 'g) \<Rightarrow> nat \<Rightarrow> nat \<Rightarrow> 'g \<Rightarrow> (real Layer \<times> 'g) option" where
  "Layer_ctor RAND_MAX rand inputCount outputCount g =
     do {
       let pWeights = new_float (size_t_mul inputCount outputCount);
       let pBiases = new_float outputCount;
       (pWeights, g) \<leftarrow> randomize RAND_MAX rand pWeights (size_t_mul inputCount outputCount) g;
       (pBiases, g) \<leftarrow> randomize RAND_MAX rand pBiases outputCount g;
       Some (\<lparr>m_inputCount = inputCount, m_outputCount = outputCount,
              m_pWeights = pWeights, m_pBiases = pBiases\<rparr>, g)
     }"

text \<open>Lines 91--103. The method is \<^verbatim>\<open>const\<close>: it returns the output array only.\<close>

definition propagate ::
  "('a \<Rightarrow> 'a) \<Rightarrow> 'a::{zero,one,plus,minus,times,ord} Layer \<Rightarrow> 'a list \<Rightarrow> 'a list
     \<Rightarrow> 'a list option" where
  "propagate expf L pInputs pOutputs =
     for_loop 0 (m_outputCount L)
       (\<lambda>out pOutputs. do {
          pWeights \<leftarrow> ptr_add (m_pWeights L) (m_inputCount L * out);
          fActivation \<leftarrow> rd (m_pBiases L) out;
          fActivation \<leftarrow> for_loop 0 (m_inputCount L)
            (\<lambda>i fActivation. do {
               x \<leftarrow> rd pInputs i;
               w \<leftarrow> rd pWeights i;
               Some (fActivation + x * w)
             }) fActivation;
          wr pOutputs out (transfer expf fActivation)
        })
       pOutputs"

text \<open>Lines 106--119. The method changes the layer: it returns the new one.\<close>

definition updateWeights ::
  "'a::{plus,times} Layer \<Rightarrow> 'a list \<Rightarrow> 'a list \<Rightarrow> 'a \<Rightarrow> 'a Layer option" where
  "updateWeights L pInputs pDeltas fLearningRate =
     for_loop 0 (m_outputCount L)
       (\<lambda>out L. do {
          pWeights \<leftarrow> ptr_offset (m_pWeights L) (m_inputCount L * out);
          d \<leftarrow> rd pDeltas out;
          let fChange = d * fLearningRate;
          W \<leftarrow> for_loop 0 (m_inputCount L)
            (\<lambda>i W. do {
               w \<leftarrow> rd W (pWeights + i);
               x \<leftarrow> rd pInputs i;
               wr W (pWeights + i) (w + fChange * x)
             }) (m_pWeights L);
          b \<leftarrow> rd (m_pBiases L) out;
          B \<leftarrow> wr (m_pBiases L) out (b + fChange);
          Some (L\<lparr>m_pWeights := W, m_pBiases := B\<rparr>)
        })
       L"

text \<open>Lines 122--133: the delta array and the returned sum.\<close>

definition computeOutputDeltas ::
  "('a \<Rightarrow> 'a) \<Rightarrow> 'a::{zero,one,plus,minus,times,ord} Layer \<Rightarrow> 'a list \<Rightarrow> 'a list \<Rightarrow> 'a list
     \<Rightarrow> ('a list \<times> 'a) option" where
  "computeOutputDeltas expf L pOutputValues pExpectedValues pDeltas =
     for_loop 0 (m_outputCount L)
       (\<lambda>out (pDeltas, fTotalQuadraticError). do {
          fOutput \<leftarrow> rd pOutputValues out;
          e \<leftarrow> rd pExpectedValues out;
          let fError = e - fOutput;
          pDeltas \<leftarrow> wr pDeltas out (fError * transferDerivative expf fOutput);
          Some (pDeltas, fTotalQuadraticError + fError * fError)
        })
       (pDeltas, 0)"

text \<open>Lines 136--148.\<close>

definition computeDeltas ::
  "('a \<Rightarrow> 'a) \<Rightarrow> 'a::{zero,one,plus,times,ord} Layer \<Rightarrow> 'a Layer \<Rightarrow> 'a list \<Rightarrow> 'a list
     \<Rightarrow> 'a list \<Rightarrow> 'a list option" where
  "computeDeltas expf L pNextLayer pNextDeltas pValues pDeltas =
     for_loop 0 (m_outputCount L)
       (\<lambda>out pDeltas. do {
          fError \<leftarrow> for_loop 0 (m_outputCount pNextLayer)
            (\<lambda>i fError. do {
               d \<leftarrow> rd pNextDeltas i;
               w \<leftarrow> rd (m_pWeights pNextLayer) (m_outputCount L * i + out);
               Some (fError + d * w)
             }) 0;
          v \<leftarrow> rd pValues out;
          wr pDeltas out (fError * transferDerivative expf v)
        })
       pDeltas"

section \<open>Network and training\<close>

text \<open>
  Lines 163--221. Only \<^verbatim>\<open>train\<close> is modelled; the constructor builds the two layers with
  \<open>Layer_ctor\<close>.
\<close>

record 'a NeuralNet =
  m_hiddenLayer :: "'a Layer"
  m_outputLayer :: "'a Layer"

text \<open>
  The variables \<^verbatim>\<open>train\<close> works on: the network (\<^verbatim>\<open>this\<close>), the four scratch arrays it
  allocates, the running error of the current epoch, and the lines it has printed, each
  the pair \<open>(epoch, fTotalQuadraticError)\<close> of one \<^verbatim>\<open>printf\<close>. The local variables
  carry the suffix \<open>_loc\<close>, since the layer's methods have parameters of the same
  names.
\<close>

record 'a train_frame =
  this :: "'a NeuralNet"
  pHiddenValues_loc :: "'a list"
  pHiddenDeltas_loc :: "'a list"
  pOutputValues_loc :: "'a list"
  pOutputDeltas_loc :: "'a list"
  fTotalQuadraticError_loc :: 'a
  console :: "(int \<times> 'a) list"

text \<open>
  Lines 197--210, the body of the loop over the examples, statement by statement: each
  call reads the state its predecessors left.
\<close>

definition train_example ::
  "('a \<Rightarrow> 'a) \<Rightarrow> 'a::{zero,one,plus,minus,times,ord} list \<Rightarrow> 'a list \<Rightarrow> nat \<Rightarrow> nat \<Rightarrow> 'a
     \<Rightarrow> nat \<Rightarrow> 'a train_frame \<Rightarrow> 'a train_frame option" where
  "train_example expf pAllInputs pAllExpectedOutputs inputCount outputCount fLearningRate test s =
     do {
       pInputs \<leftarrow> ptr_add pAllInputs (test * inputCount);
       pExpectedOutputs \<leftarrow> ptr_add pAllExpectedOutputs (test * outputCount);
       hv \<leftarrow> propagate expf (m_hiddenLayer (this s)) pInputs (pHiddenValues_loc s);
       let s = s\<lparr>pHiddenValues_loc := hv\<rparr>;
       ov \<leftarrow> propagate expf (m_outputLayer (this s)) (pHiddenValues_loc s) (pOutputValues_loc s);
       let s = s\<lparr>pOutputValues_loc := ov\<rparr>;
       (od, e) \<leftarrow> computeOutputDeltas expf (m_outputLayer (this s)) (pOutputValues_loc s)
                     pExpectedOutputs (pOutputDeltas_loc s);
       let s = s\<lparr>pOutputDeltas_loc := od, fTotalQuadraticError_loc := fTotalQuadraticError_loc s + e\<rparr>;
       hd \<leftarrow> computeDeltas expf (m_hiddenLayer (this s)) (m_outputLayer (this s))
                (pOutputDeltas_loc s) (pHiddenValues_loc s) (pHiddenDeltas_loc s);
       let s = s\<lparr>pHiddenDeltas_loc := hd\<rparr>;
       ol \<leftarrow> updateWeights (m_outputLayer (this s)) (pHiddenValues_loc s) (pOutputDeltas_loc s)
                fLearningRate;
       let s = s\<lparr>this := (this s)\<lparr>m_outputLayer := ol\<rparr>\<rparr>;
       hl \<leftarrow> updateWeights (m_hiddenLayer (this s)) pInputs (pHiddenDeltas_loc s) fLearningRate;
       Some (s\<lparr>this := (this s)\<lparr>m_hiddenLayer := hl\<rparr>\<rparr>)
     }"

text \<open>
  Line 191, \<^verbatim>\<open>for( int epoch = 0; epoch < epochCount; ++epoch )\<close>: the comparison converts
  \<^verbatim>\<open>epoch\<close> to \<^verbatim>\<open>size_t\<close>; \<^verbatim>\<open>++epoch\<close> at \<open>INT_MAX\<close> overflows a signed integer, which
  is undefined.
\<close>

function train_epochs :: "(int \<Rightarrow> 's \<Rightarrow> 's option) \<Rightarrow> nat \<Rightarrow> int \<Rightarrow> 's \<Rightarrow> 's option" where
  "train_epochs body epochCount epoch s =
     (if size_t_of_int epoch < epochCount
      then (case body epoch s of
              None \<Rightarrow> None
            | Some s' \<Rightarrow>
                if epoch < INT_MAX then train_epochs body epochCount (epoch + 1) s' else None)
      else Some s)"
  by pat_completeness auto
termination
  by (relation "measure (\<lambda>(body, epochCount, epoch, s). nat (INT_MAX - epoch))") auto

declare train_epochs.simps [simp del]

text \<open>
Lines 180--215. The result is the trained network and the printed lines.
\<close>

definition train ::
  "('a \<Rightarrow> 'a) \<Rightarrow> 'a::{zero,one,plus,minus,times,ord} NeuralNet \<Rightarrow> 'a list \<Rightarrow> 'a list \<Rightarrow> nat \<Rightarrow> nat
     \<Rightarrow> 'a \<Rightarrow> ('a NeuralNet \<times> (int \<times> 'a) list) option" where
  "train expf N pAllInputs pAllExpectedOutputs testCount epochCount fLearningRate =
     do {
       let inputCount = m_inputCount (m_hiddenLayer N);
       let hiddenCount = m_outputCount (m_hiddenLayer N);
       let outputCount = m_outputCount (m_outputLayer N);
       let s = \<lparr>this = N,
                pHiddenValues_loc = new_float hiddenCount, pHiddenDeltas_loc = new_float hiddenCount,
                pOutputValues_loc = new_float outputCount, pOutputDeltas_loc = new_float outputCount,
                fTotalQuadraticError_loc = 0, console = []\<rparr>;
       s \<leftarrow> train_epochs
              (\<lambda>epoch s. do {
                 let s = s\<lparr>fTotalQuadraticError_loc := 0\<rparr>;
                 s \<leftarrow> for_loop 0 testCount
                        (train_example expf pAllInputs pAllExpectedOutputs inputCount outputCount
                           fLearningRate) s;
                 Some (s\<lparr>console := console s @ [(epoch, fTotalQuadraticError_loc s)]\<rparr>)
               })
              epochCount 0 s;
       Some (this s, console s)
     }"

section \<open>IEEE 754 special values\<close>

text \<open>
  The values of an IEEE 754 format, as far as a claim about bit patterns needs them: one
  NaN, the two infinities, negative zero (\<open>MZero\<close>), and \<open>Fin r\<close> for the finite number
  \<open>r\<close>, with \<open>Fin 0\<close> the positive zero. Equality of two values of this type is equality
  of the floats' bits (up to the payload of a NaN). Addition and multiplication follow
  the standard on the special values and on the sign of a zero result (rounding to
  nearest); on finite nonzero operands the exact result stands for the rounded one, so
  rounding, overflow and underflow are not modelled. The operations that decide the
  claim stated at this type (a product with a zero, a sum with a zero, an operation on
  an infinity or a NaN) are exact in IEEE 754 as well.
\<close>

datatype ieee = NaN | PInf | MInf | MZero | Fin real

fun is_inf :: "ieee \<Rightarrow> bool" where
  "is_inf PInf = True"
| "is_inf MInf = True"
| "is_inf _ = False"

fun is_zero :: "ieee \<Rightarrow> bool" where
  "is_zero MZero = True"
| "is_zero (Fin r) = (r = 0)"
| "is_zero _ = False"

fun is_finite :: "ieee \<Rightarrow> bool" where
  "is_finite MZero = True"
| "is_finite (Fin r) = True"
| "is_finite _ = False"

fun sign_bit :: "ieee \<Rightarrow> bool" where
  "sign_bit MInf = True"
| "sign_bit MZero = True"
| "sign_bit (Fin r) = (r < 0)"
| "sign_bit _ = False"

fun val :: "ieee \<Rightarrow> real" where
  "val (Fin r) = r"
| "val _ = 0"

instantiation ieee :: "{zero,plus,times}"
begin

definition zero_ieee :: ieee where
  "zero_ieee = Fin 0"

definition plus_ieee :: "ieee \<Rightarrow> ieee \<Rightarrow> ieee" where
  "plus_ieee x y =
     (if x = NaN \<or> y = NaN then NaN
      else if is_inf x \<and> is_inf y then (if x = y then x else NaN)
      else if is_inf x then x
      else if is_inf y then y
      else if x = MZero then y
      else if y = MZero then x
      else Fin (val x + val y))"

definition times_ieee :: "ieee \<Rightarrow> ieee \<Rightarrow> ieee" where
  "times_ieee x y =
     (if x = NaN \<or> y = NaN then NaN
      else if (is_inf x \<and> is_zero y) \<or> (is_zero x \<and> is_inf y) then NaN
      else if is_inf x \<or> is_inf y then (if sign_bit x = sign_bit y then PInf else MInf)
      else if is_zero x \<or> is_zero y then (if sign_bit x = sign_bit y then Fin 0 else MZero)
      else Fin (val x * val y))"

instance ..

end

section \<open>What the operations compute\<close>

text \<open>
  The quantities that the theorems below show the loops to compute, written as closed
  expressions. A sum is the left fold the loop performs, in the loop's order and from
  the loop's start value, so that the expressions mean the same in every arithmetic;
  at type \<open>real\<close> they are the sums \<open>\<Sum>\<close> of the specification.

  \<open>wf_Layer\<close> is the size invariant of the specification's data model: \<open>W\<close> has
  \<open>n_in * n_out\<close> cells and \<open>b\<close> has \<open>n_out\<close>.
\<close>

definition wf_Layer :: "'a Layer \<Rightarrow> bool" where
  "wf_Layer L \<longleftrightarrow>
     length (m_pWeights L) = m_inputCount L * m_outputCount L \<and>
     length (m_pBiases L) = m_outputCount L"

definition weighted_sum :: "'a::{plus,times} Layer \<Rightarrow> 'a list \<Rightarrow> nat \<Rightarrow> 'a" where
  "weighted_sum L xs out =
     foldl (\<lambda>a i. a + xs ! i * m_pWeights L ! (m_inputCount L * out + i))
       (m_pBiases L ! out) [0..<m_inputCount L]"

definition layer_outputs ::
  "('a \<Rightarrow> 'a) \<Rightarrow> 'a::{zero,one,plus,minus,times,ord} Layer \<Rightarrow> 'a list \<Rightarrow> 'a list" where
  "layer_outputs expf L xs = map (\<lambda>out. transfer expf (weighted_sum L xs out)) [0..<m_outputCount L]"

definition updated_weight :: "'a::{plus,times} Layer \<Rightarrow> 'a list \<Rightarrow> 'a list \<Rightarrow> 'a \<Rightarrow> nat \<Rightarrow> 'a" where
  "updated_weight L pInputs pDeltas fLearningRate idx =
     m_pWeights L ! idx +
       (pDeltas ! (idx div m_inputCount L) * fLearningRate) * pInputs ! (idx mod m_inputCount L)"

definition updated_bias :: "'a::{plus,times} Layer \<Rightarrow> 'a list \<Rightarrow> 'a \<Rightarrow> nat \<Rightarrow> 'a" where
  "updated_bias L pDeltas fLearningRate out = m_pBiases L ! out + pDeltas ! out * fLearningRate"

definition updated_layer :: "'a::{plus,times} Layer \<Rightarrow> 'a list \<Rightarrow> 'a list \<Rightarrow> 'a \<Rightarrow> 'a Layer" where
  "updated_layer L inputs deltas learningRate =
     L\<lparr>m_pWeights := map (updated_weight L inputs deltas learningRate)
                         [0..<m_inputCount L * m_outputCount L],
       m_pBiases := map (updated_bias L deltas learningRate) [0..<m_outputCount L]\<rparr>"

definition output_error :: "'a::minus list \<Rightarrow> 'a list \<Rightarrow> nat \<Rightarrow> 'a" where
  "output_error pOutputValues pExpectedValues out = pExpectedValues ! out - pOutputValues ! out"

definition output_delta ::
  "('a \<Rightarrow> 'a) \<Rightarrow> 'a::{zero,one,minus,times,ord} list \<Rightarrow> 'a list \<Rightarrow> nat \<Rightarrow> 'a" where
  "output_delta expf pOutputValues pExpectedValues out =
     output_error pOutputValues pExpectedValues out * transferDerivative expf (pOutputValues ! out)"

definition output_deltas ::
  "('a \<Rightarrow> 'a) \<Rightarrow> 'a::{zero,one,plus,minus,times,ord} Layer \<Rightarrow> 'a list \<Rightarrow> 'a list \<Rightarrow> 'a list" where
  "output_deltas expf L outputValues expected =
     map (output_delta expf outputValues expected) [0..<m_outputCount L]"

definition squared_error_sum :: "'a::{zero,plus,minus,times} list \<Rightarrow> 'a list \<Rightarrow> nat \<Rightarrow> 'a" where
  "squared_error_sum pOutputValues pExpectedValues n =
     foldl (\<lambda>a out. a + output_error pOutputValues pExpectedValues out *
                          output_error pOutputValues pExpectedValues out) 0 [0..<n]"

definition backprop_error :: "'a::{zero,plus,times} Layer \<Rightarrow> 'a Layer \<Rightarrow> 'a list \<Rightarrow> nat \<Rightarrow> 'a" where
  "backprop_error L pNextLayer pNextDeltas out =
     foldl (\<lambda>a i. a + pNextDeltas ! i * m_pWeights pNextLayer ! (m_outputCount L * i + out))
       0 [0..<m_outputCount pNextLayer]"

definition hidden_delta ::
  "('a \<Rightarrow> 'a) \<Rightarrow> 'a::{zero,one,plus,times,ord} Layer \<Rightarrow> 'a Layer \<Rightarrow> 'a list \<Rightarrow> 'a list \<Rightarrow> nat \<Rightarrow> 'a" where
  "hidden_delta expf L pNextLayer pNextDeltas pValues out =
     backprop_error L pNextLayer pNextDeltas out * transferDerivative expf (pValues ! out)"

definition hidden_deltas ::
  "('a \<Rightarrow> 'a) \<Rightarrow> 'a::{zero,one,plus,times,ord} Layer \<Rightarrow> 'a Layer \<Rightarrow> 'a list \<Rightarrow> 'a list \<Rightarrow> 'a list" where
  "hidden_deltas expf L nextLayer nextDeltas thisLayerValues =
     map (hidden_delta expf L nextLayer nextDeltas thisLayerValues) [0..<m_outputCount L]"

text \<open>
  The state of the generator after \<open>k\<close> calls of \<open>rand\<close>, the number that the \<open>k\<close>-th
  call of \<open>rand\<close> (counting from 0) returns, and the parameter that the \<open>k\<close>-th call of
  \<open>randomFloat\<close> returns.
\<close>

definition rand_state :: "('g \<Rightarrow> nat \<times> 'g) \<Rightarrow> nat \<Rightarrow> 'g \<Rightarrow> 'g" where
  "rand_state rand k g = ((\<lambda>g. snd (rand g)) ^^ k) g"

definition drawn_number :: "('g \<Rightarrow> nat \<times> 'g) \<Rightarrow> 'g \<Rightarrow> nat \<Rightarrow> nat" where
  "drawn_number rand g k = fst (rand (rand_state rand k g))"

definition drawn :: "nat \<Rightarrow> ('g \<Rightarrow> nat \<times> 'g) \<Rightarrow> 'g \<Rightarrow> nat \<Rightarrow> real" where
  "drawn RAND_MAX rand g k = fst (randomFloat RAND_MAX rand (rand_state rand k g))"

text \<open>
  The two steps of \<open>randomFloat\<close>: the sample \<open>u\<close>, which is the subexpression
  \<^verbatim>\<open>float( rand() ) / float( RAND_MAX )\<close> for the number \<open>r\<close> that \<open>rand\<close> returned, and
  the parameter \<^verbatim>\<open>u * 0.4f + 0.5f\<close> made from it.
\<close>

definition unit_sample :: "nat \<Rightarrow> nat \<Rightarrow> real" where
  "unit_sample RAND_MAX r = fl32 (fl32 (real r) / fl32 (real RAND_MAX))"

definition init_value :: "real \<Rightarrow> real" where
  "init_value u = fl32 (fl32 (u * fl32 0.4) + fl32 0.5)"

text \<open>
  A generator for the examples, with \<open>RAND_MAX = 32767\<close>: it returns \<open>RAND_MAX\<close> and \<open>0\<close>
  in turn.
\<close>

definition rand_stub :: "nat \<Rightarrow> nat \<times> nat" where
  "rand_stub g = (if even g then 32767 else 0, Suc g)"

subsection \<open>Training as the specification words it\<close>

text \<open>
  Section 4.2 of the specification, \<^emph>\<open>train\<close>: for each epoch, for each example in
  order, the forward pass (1), the output deltas and the squared error (2), the hidden
  deltas from the output layer as it is before its update (3), then both updates (4);
  after each epoch the epoch's total squared error is reported.
\<close>

definition spec_train_example ::
  "('a \<Rightarrow> 'a) \<Rightarrow> 'a \<Rightarrow> 'a::{zero,one,plus,minus,times,ord} NeuralNet \<Rightarrow> 'a list \<Rightarrow> 'a list
     \<Rightarrow> 'a NeuralNet \<times> 'a" where
  "spec_train_example expf learningRate N input expected =
     (let hidden = m_hiddenLayer N;
          output = m_outputLayer N;
          hiddenValues = layer_outputs expf hidden input;
          outputValues = layer_outputs expf output hiddenValues;
          outputDeltas = output_deltas expf output outputValues expected;
          squaredError = squared_error_sum outputValues expected (m_outputCount output);
          hiddenDeltas = hidden_deltas expf hidden output outputDeltas hiddenValues
      in (\<lparr>m_hiddenLayer = updated_layer hidden input hiddenDeltas learningRate,
           m_outputLayer = updated_layer output hiddenValues outputDeltas learningRate\<rparr>,
          squaredError))"

definition spec_epoch ::
  "('a \<Rightarrow> 'a) \<Rightarrow> 'a \<Rightarrow> 'a::{zero,one,plus,minus,times,ord} list \<Rightarrow> 'a list \<Rightarrow> nat
     \<Rightarrow> 'a NeuralNet \<Rightarrow> 'a NeuralNet \<times> 'a" where
  "spec_epoch expf learningRate allInputs allExpected exampleCount N =
     foldl (\<lambda>(N, err) t.
              case spec_train_example expf learningRate N
                     (drop (t * m_inputCount (m_hiddenLayer N)) allInputs)
                     (drop (t * m_outputCount (m_outputLayer N)) allExpected) of
                (N', squaredError) \<Rightarrow> (N', err + squaredError))
       (N, 0) [0..<exampleCount]"

definition spec_train ::
  "('a \<Rightarrow> 'a) \<Rightarrow> 'a \<Rightarrow> 'a::{zero,one,plus,minus,times,ord} list \<Rightarrow> 'a list \<Rightarrow> nat \<Rightarrow> nat
     \<Rightarrow> 'a NeuralNet \<Rightarrow> 'a NeuralNet \<times> (int \<times> 'a) list" where
  "spec_train expf learningRate allInputs allExpected exampleCount epochCount N =
     foldl (\<lambda>(N, reports) epoch.
              case spec_epoch expf learningRate allInputs allExpected exampleCount N of
                (N', err) \<Rightarrow> (N', reports @ [(int epoch, err)]))
       (N, []) [0..<epochCount]"

text \<open>
  The invariant of the specification's data model for a network: both layers have their
  sizes, and \<open>hidden.n_out = output.n_in\<close>. \<open>frame_ok\<close> adds the sizes of the scratch
  arrays of \<^verbatim>\<open>train\<close>.
\<close>

definition net_ok :: "'a NeuralNet \<Rightarrow> bool" where
  "net_ok N \<longleftrightarrow>
     wf_Layer (m_hiddenLayer N) \<and> wf_Layer (m_outputLayer N) \<and>
     m_inputCount (m_outputLayer N) = m_outputCount (m_hiddenLayer N)"

definition frame_ok :: "nat \<Rightarrow> nat \<Rightarrow> nat \<Rightarrow> 'a train_frame \<Rightarrow> bool" where
  "frame_ok ni nh no s \<longleftrightarrow>
     net_ok (this s) \<and>
     m_inputCount (m_hiddenLayer (this s)) = ni \<and>
     m_outputCount (m_hiddenLayer (this s)) = nh \<and>
     m_outputCount (m_outputLayer (this s)) = no \<and>
     length (pHiddenValues_loc s) = nh \<and> length (pHiddenDeltas_loc s) = nh \<and>
     length (pOutputValues_loc s) = no \<and> length (pOutputDeltas_loc s) = no"

section \<open>Loops and memory: basic facts\<close>

lemma for_loop_step:
  "i < n \<Longrightarrow> for_loop i n body s =
     (case body i s of None \<Rightarrow> None | Some s' \<Rightarrow> for_loop (Suc i) n body s')"
  by (subst for_loop.simps) simp

lemma for_loop_done: "\<not> i < n \<Longrightarrow> for_loop i n body s = Some s"
  by (subst for_loop.simps) simp

text \<open>
  The invariant rule: the loop returns, and the invariant holds of what it returns.
\<close>

lemma for_loop_invariant:
  assumes "I i s" and "i \<le> n"
    and "\<And>k t. i \<le> k \<Longrightarrow> k < n \<Longrightarrow> I k t \<Longrightarrow> \<exists>t'. body k t = Some t' \<and> I (Suc k) t'"
  shows "\<exists>t. for_loop i n body s = Some t \<and> I n t"
  using assms
proof (induction "n - i" arbitrary: i s)
  case 0
  then have "i = n" by simp
  with 0 show ?case by (simp add: for_loop_done)
next
  case (Suc d)
  then have lt: "i < n" by simp
  from Suc.prems(3)[OF le_refl lt Suc.prems(1)]
  obtain t' where t': "body i s = Some t'" "I (Suc i) t'" by blast
  have "\<exists>t. for_loop (Suc i) n body t' = Some t \<and> I n t"
  proof (rule Suc.hyps(1))
    show "d = n - Suc i" using Suc.hyps(2) by simp
    show "I (Suc i) t'" by fact
    show "Suc i \<le> n" using lt by simp
    show "\<And>k t. Suc i \<le> k \<Longrightarrow> k < n \<Longrightarrow> I k t \<Longrightarrow> \<exists>t'. body k t = Some t' \<and> I (Suc k) t'"
      using Suc.prems(3) by simp
  qed
  then show ?case using lt t' by (simp add: for_loop_step)
qed

lemma for_loop_foldl:
  assumes "\<And>k t. i \<le> k \<Longrightarrow> k < n \<Longrightarrow> body k t = Some (f t k)"
  shows "for_loop i n body s = Some (foldl f s [i..<n])"
proof (cases "i \<le> n")
  case True
  have "\<exists>t. for_loop i n body s = Some t \<and> t = foldl f s [i..<n]"
  proof (rule for_loop_invariant [where I = "\<lambda>k t. t = foldl f s [i..<k]"])
    show "s = foldl f s [i..<i]" by simp
    show "i \<le> n" by fact
    fix k t assume "i \<le> k" "k < n" "t = foldl f s [i..<k]"
    then show "\<exists>t'. body k t = Some t' \<and> t' = foldl f s [i..<Suc k]"
      using assms by simp
  qed
  then show ?thesis by simp
next
  case False
  then show ?thesis by (simp add: for_loop_done)
qed

lemma prefix_update:
  assumes "k < length xs"
  shows "(map f [0..<k] @ drop k xs)[k := f k] = map f [0..<Suc k] @ drop (Suc k) xs"
proof -
  have "drop k xs = xs ! k # drop (Suc k) xs"
    using assms by (simp add: Cons_nth_drop_Suc)
  then show ?thesis by (simp add: list_update_append)
qed

lemma for_loop_fill:
  assumes "n \<le> length xs"
    and "\<And>k t. k < n \<Longrightarrow> length t = length xs \<Longrightarrow> body k t = wr t k (f k)"
  shows "for_loop 0 n body xs = Some (map f [0..<n] @ drop n xs)"
proof -
  have "\<exists>t. for_loop 0 n body xs = Some t \<and> t = map f [0..<n] @ drop n xs"
  proof (rule for_loop_invariant [where I = "\<lambda>k t. t = map f [0..<k] @ drop k xs"])
    show "xs = map f [0..<0] @ drop 0 xs" by simp
    show "0 \<le> n" by simp
    fix k t assume k: "k < n" and t: "t = map f [0..<k] @ drop k xs"
    have len: "length t = length xs" using k assms(1) t by simp
    have "body k t = wr t k (f k)" using assms(2) k len by blast
    also have "\<dots> = Some (map f [0..<Suc k] @ drop (Suc k) xs)"
      using k assms(1) len unfolding wr_def t by (simp add: prefix_update del: upt_Suc)
    finally show "\<exists>t'. body k t = Some t' \<and> t' = map f [0..<Suc k] @ drop (Suc k) xs"
      by simp
  qed
  then show ?thesis by simp
qed

lemma rd_in: "i < length p \<Longrightarrow> rd p i = Some (p ! i)"
  by (simp add: rd_def)

lemma wr_in: "i < length p \<Longrightarrow> wr p i v = Some (p[i := v])"
  by (simp add: wr_def)

lemma ptr_add_in: "k \<le> length p \<Longrightarrow> ptr_add p k = Some (drop k p)"
  by (simp add: ptr_add_def)

lemma ptr_offset_in: "k \<le> length p \<Longrightarrow> ptr_offset p k = Some k"
  by (simp add: ptr_offset_def)

lemma foldl_add_sum:
  fixes b :: "'a::comm_monoid_add"
  shows "foldl (\<lambda>a i. a + f i) b [0..<n] = b + (\<Sum>i<n. f i)"
  by (induction n) (simp_all add: add.assoc)

lemma list_of_two: "length xs = 2 \<Longrightarrow> xs = [xs ! 0, xs ! 1]"
  by (cases xs; cases "tl xs") auto

lemma upt_0_1: "[0..<1] = [0]"
  by simp

lemma upt_0_2: "[0..<2] = [0, 1]"
  by (simp add: numeral_2_eq_2)

lemma size_t_mul_small: "a * b < 2 ^ 64 \<Longrightarrow> size_t_mul a b = a * b"
  by (simp add: size_t_mul_def)

section \<open>The activation and its derivative\<close>

text \<open>
  At type \<open>real\<close>, with \<open>exp\<close> for \<^verbatim>\<open>expf\<close>. \<^verbatim>\<open>eluDerivative\<close> is the derivative of
  \<^verbatim>\<open>elu\<close> as a function of \<^verbatim>\<open>elu\<close>'s argument. Applied to \<^verbatim>\<open>elu\<close>'s value, as every
  caller does, it is the derivative for \<open>x > 0\<close> (\<open>transfer_contract_pos\<close>) and for no
  \<open>x < 0\<close> (\<open>transfer_contract_neg\<close>): there it gives \<open>exp (exp x - 1)\<close>, and the
  derivative is \<open>exp x\<close>, which is \<open>elu x + 1\<close>. The sigmoid pair, written in terms of
  the value, does satisfy the contract (\<open>sigmoid_contract\<close>).
\<close>

lemma elu_has_derivative_neg:
  fixes x :: real
  assumes "x < 0"
  shows "(elu exp has_real_derivative exp x) (at x)"
proof (rule has_field_derivative_transform_within_open [where f = "\<lambda>y. exp y - 1" and S = "{..<0}"])
  show "((\<lambda>y. exp y - 1) has_real_derivative exp x) (at x)"
    by (auto intro!: derivative_eq_intros)
  show "open {..<0::real}" by simp
  show "x \<in> {..<0}" using assms by simp
  show "\<And>y. y \<in> {..<0::real} \<Longrightarrow> exp y - 1 = elu exp y" by (simp add: elu_def)
qed

lemma elu_has_derivative_pos:
  fixes x :: real
  assumes "0 < x"
  shows "(elu exp has_real_derivative 1) (at x)"
proof (rule has_field_derivative_transform_within_open [where f = "\<lambda>y. y" and S = "{0<..}"])
  show "((\<lambda>y. y) has_real_derivative 1) (at x)"
    by (auto intro!: derivative_eq_intros)
  show "open {0::real<..}" by simp
  show "x \<in> {0<..}" using assms by simp
  show "\<And>y. y \<in> {0::real<..} \<Longrightarrow> y = elu exp y" by (simp add: elu_def)
qed

lemma eluDerivative_of_elu_pos:
  fixes x :: real
  shows "0 \<le> x \<Longrightarrow> eluDerivative exp (elu exp x) = 1"
  by (simp add: elu_def eluDerivative_def)

lemma eluDerivative_of_elu_neg:
  fixes x :: real
  assumes "x < 0"
  shows "eluDerivative exp (elu exp x) = exp (exp x - 1)" "exp (exp x - 1) \<noteq> exp x"
proof -
  have "exp x - 1 < 0" using assms by simp
  then show "eluDerivative exp (elu exp x) = exp (exp x - 1)"
    using assms by (simp add: elu_def eluDerivative_def)
  have "x < exp x - 1"
  proof (cases "x \<le> - 1")
    case True
    then show ?thesis using exp_gt_zero [of x] by linarith
  next
    case False
    then have h: "0 < 1 + x / 2" by simp
    have "1 + x / 2 \<le> exp (x / 2)" by (rule exp_ge_add_one_self)
    then have "(1 + x / 2)\<^sup>2 \<le> (exp (x / 2))\<^sup>2"
      using h by (intro power_mono) simp_all
    moreover have "(exp (x / 2))\<^sup>2 = exp x"
      using exp_double [of "x / 2"] by simp
    moreover have "(1 + x / 2)\<^sup>2 = 1 + x + x\<^sup>2 / 4"
      by (simp add: power2_eq_square field_simps)
    moreover have "0 < x\<^sup>2 / 4" using assms by simp
    ultimately show ?thesis by linarith
  qed
  then have "exp x - 1 \<noteq> x" by simp
  then show "exp (exp x - 1) \<noteq> exp x" by simp
qed

lemma transfer_contract_pos:
  fixes x :: real
  assumes "0 < x"
  shows "(transfer exp has_real_derivative transferDerivative exp (transfer exp x)) (at x)"
proof -
  have t: "transfer exp = elu (exp :: real \<Rightarrow> real)"
    by (rule ext) (simp add: transfer_def)
  have "eluDerivative exp (elu exp x) = 1"
    using assms by (simp add: eluDerivative_of_elu_pos)
  then show ?thesis
    using elu_has_derivative_pos [OF assms] by (simp add: t transferDerivative_def)
qed

lemma transfer_contract_neg:
  fixes x :: real
  assumes "x < 0"
  shows "\<not> (transfer exp has_real_derivative transferDerivative exp (transfer exp x)) (at x)"
proof
  have t: "transfer exp = elu (exp :: real \<Rightarrow> real)"
    by (rule ext) (simp add: transfer_def)
  assume "(transfer exp has_real_derivative transferDerivative exp (transfer exp x)) (at x)"
  then have "(elu exp has_real_derivative eluDerivative exp (elu exp x)) (at x)"
    by (simp add: t transferDerivative_def)
  from DERIV_unique [OF this elu_has_derivative_neg [OF assms]]
  show False using eluDerivative_of_elu_neg [OF assms] by simp
qed

lemma sigmoid_contract:
  fixes x :: real
  shows "(sigmoid exp has_real_derivative sigmoidDerivative (sigmoid exp x)) (at x)"
proof -
  have pos: "1 + exp (- x) \<noteq> 0" using exp_gt_zero [of "- x"] by linarith
  have "((\<lambda>y. 1 / (1 + exp (- y))) has_real_derivative
           (exp (- x) / (1 + exp (- x))\<^sup>2)) (at x)"
    using pos by (auto intro!: derivative_eq_intros simp: power2_eq_square)
  moreover have "exp (- x) / (1 + exp (- x))\<^sup>2 = sigmoidDerivative (sigmoid exp x)"
    using pos by (simp add: sigmoid_def sigmoidDerivative_def power2_eq_square field_simps)
  moreover have "sigmoid exp = (\<lambda>y::real. 1 / (1 + exp (- y)))"
    by (rule ext) (simp add: sigmoid_def)
  ultimately show ?thesis by simp
qed

text \<open>
  C1 (the code at the input \<open>x = -1\<close>). The derivative of \<open>transfer\<close> at \<open>-1\<close> is
  \<open>exp (-1)\<close>, and \<open>transferDerivative (transfer (-1))\<close> is \<open>exp (exp (-1) - 1)\<close>, a
  different number: the contract \<open>transferDerivative (transfer x) = d/dx transfer x\<close>
  fails there.
\<close>

theorem transferDerivative_of_transfer_at_minus_one:
  "(transfer exp has_real_derivative exp (- 1)) (at (- 1 :: real)) \<and>
   transferDerivative exp (transfer exp (- 1 :: real)) = exp (exp (- 1) - 1) \<and>
   transferDerivative exp (transfer exp (- 1 :: real)) \<noteq> exp (- 1)"
proof -
  have t: "transfer exp = elu (exp :: real \<Rightarrow> real)"
    by (rule ext) (simp add: transfer_def)
  have "(- 1 :: real) < 0" by simp
  from elu_has_derivative_neg [OF this] eluDerivative_of_elu_neg [OF this]
  show ?thesis by (simp add: t transfer_def transferDerivative_def)
qed

section \<open>propagate\<close>

lemma propagate_inner:
  assumes "m_inputCount L \<le> length pInputs" "m_inputCount L \<le> length pWeights"
  shows "for_loop 0 (m_inputCount L)
            (\<lambda>i fActivation. do {
               x \<leftarrow> rd pInputs i;
               w \<leftarrow> rd pWeights i;
               Some (fActivation + x * w)
             }) b = Some (foldl (\<lambda>a i. a + pInputs ! i * pWeights ! i) b [0..<m_inputCount L])"
  by (rule for_loop_foldl) (use assms in \<open>simp add: rd_in\<close>)

text \<open>
  In every arithmetic: \<open>propagate\<close> returns, and it has written
  \<open>transfer (weighted_sum L pInputs out)\<close> to cell \<open>out\<close>, the sum taken from the bias
  on, in the order of the inputs.
\<close>

lemma propagate_closed_form:
  fixes L :: "'a::{zero,one,plus,minus,times,ord} Layer"
  assumes "wf_Layer L" "m_inputCount L \<le> length pInputs" "m_outputCount L \<le> length pOutputs"
  shows "propagate expf L pInputs pOutputs =
           Some (map (\<lambda>out. transfer expf (weighted_sum L pInputs out)) [0..<m_outputCount L]
                 @ drop (m_outputCount L) pOutputs)"
  unfolding propagate_def
proof (rule for_loop_fill)
  show "m_outputCount L \<le> length pOutputs" by fact
  fix k t assume k: "k < m_outputCount L"
  have le: "m_inputCount L * k + m_inputCount L \<le> length (m_pWeights L)"
  proof -
    have "m_inputCount L * Suc k \<le> m_inputCount L * m_outputCount L"
      using k by (intro mult_le_mono2) simp
    then show ?thesis using assms(1) by (simp add: wf_Layer_def)
  qed
  show "do {
          pWeights \<leftarrow> ptr_add (m_pWeights L) (m_inputCount L * k);
          fActivation \<leftarrow> rd (m_pBiases L) k;
          fActivation \<leftarrow> for_loop 0 (m_inputCount L)
            (\<lambda>i fActivation. do {
               x \<leftarrow> rd pInputs i;
               w \<leftarrow> rd pWeights i;
               Some (fActivation + x * w)
             }) fActivation;
          wr t k (transfer expf fActivation)
        } = wr t k (transfer expf (weighted_sum L pInputs k))"
  proof -
    have len_drop: "m_inputCount L \<le> length (drop (m_inputCount L * k) (m_pWeights L))"
      using le by simp
    have "k < length (m_pBiases L)" "m_inputCount L * k \<le> length (m_pWeights L)"
      using le k assms(1) by (simp_all add: wf_Layer_def)
    then show ?thesis
      by (simp add: ptr_add_in rd_in propagate_inner [OF assms(2) len_drop] weighted_sum_def)
  qed
qed

lemma weighted_sum_real:
  fixes L :: "real Layer"
  shows "weighted_sum L xs out =
     m_pBiases L ! out + (\<Sum>i<m_inputCount L. xs ! i * m_pWeights L ! (m_inputCount L * out + i))"
  by (simp add: weighted_sum_def foldl_add_sum)

text \<open>
  C6. For a layer whose arrays have their sizes, an input array of at least \<open>n_in\<close>
  cells (exactly \<open>n_in\<close> in the claim) and an output array of at least \<open>n_out\<close> cells,
  \<open>propagate\<close> returns the output array with
  \<open>outputs[o] = transfer (b[o] + (\<Sum>i<n_in. inputs[i] * W[n_in * o + i]))\<close> for every
  unit \<open>o\<close>, its length and its cells from \<open>n_out\<close> on as they were. The result is a
  function of the layer and the two arrays, and the layer is not part of it: the
  method is \<^verbatim>\<open>const\<close> and writes through \<^verbatim>\<open>pOutputs\<close> only.
\<close>

theorem propagate_computes:
  fixes L :: "real Layer"
  assumes "wf_Layer L" "m_inputCount L \<le> length pInputs" "m_outputCount L \<le> length pOutputs"
  shows "\<exists>outs. propagate exp L pInputs pOutputs = Some outs \<and>
           length outs = length pOutputs \<and>
           (\<forall>out<m_outputCount L. outs ! out =
               transfer exp (m_pBiases L ! out +
                 (\<Sum>i<m_inputCount L. pInputs ! i * m_pWeights L ! (m_inputCount L * out + i)))) \<and>
           (\<forall>j. m_outputCount L \<le> j \<and> j < length pOutputs \<longrightarrow> outs ! j = pOutputs ! j)"
  using assms(3)
  by (simp add: propagate_closed_form [OF assms] nth_append weighted_sum_real)

theorem propagate_computes_witness:
  "wf_Layer \<lparr>m_inputCount = 2, m_outputCount = 2, m_pWeights = [1, 2, - 1, - 1],
              m_pBiases = [3, 0 :: real]\<rparr> \<and>
   propagate exp \<lparr>m_inputCount = 2, m_outputCount = 2, m_pWeights = [1, 2, - 1, - 1],
              m_pBiases = [3, 0]\<rparr> [1, 1] [0, 0]
     = Some [6, exp (- 2) - 1 :: real]"
proof -
  let ?L = "\<lparr>m_inputCount = 2, m_outputCount = 2, m_pWeights = [1, 2, - 1, - 1],
              m_pBiases = [3, 0 :: real]\<rparr>"
  have wf: "wf_Layer ?L" by (simp add: wf_Layer_def)
  from propagate_computes [OF wf, of "[1, 1]" "[0, 0]"]
  obtain outs where run: "propagate exp ?L [1, 1] [0, 0] = Some outs"
    and len: "length outs = 2"
    and val: "\<forall>out<2. outs ! out = transfer exp (m_pBiases ?L ! out +
                 (\<Sum>i<2. [1, 1] ! i * m_pWeights ?L ! (2 * out + i)))"
    by auto
  have "outs ! 0 = 6" "outs ! 1 = exp (- 2) - 1"
    using val by (simp_all add: numeral_2_eq_2 transfer_def elu_def)
  then have "outs = [6, exp (- 2) - 1]"
    using list_of_two [OF len] by simp
  then show ?thesis using wf run by simp
qed

section \<open>updateWeights\<close>

lemma updateWeights_inner:
  fixes W :: "'a::{plus,times} list"
  assumes "base + n \<le> length W" "n \<le> length pInputs"
  shows "for_loop 0 n
            (\<lambda>i W. do {
               w \<leftarrow> rd W (base + i);
               x \<leftarrow> rd pInputs i;
               wr W (base + i) (w + fChange * x)
             }) W
         = Some (take base W @ map (\<lambda>i. W ! (base + i) + fChange * pInputs ! i) [0..<n]
                  @ drop (base + n) W)"
proof -
  let ?I = "\<lambda>k t. t = take base W @ map (\<lambda>i. W ! (base + i) + fChange * pInputs ! i) [0..<k]
                  @ drop (base + k) W"
  have "\<exists>t. for_loop 0 n
            (\<lambda>i W. do {
               w \<leftarrow> rd W (base + i);
               x \<leftarrow> rd pInputs i;
               wr W (base + i) (w + fChange * x)
             }) W = Some t \<and> ?I n t"
  proof (rule for_loop_invariant [where I = ?I])
    show "?I 0 W" by simp
    show "0 \<le> n" by simp
    fix k t assume k: "k < n" and t: "?I k t"
    have len: "length t = length W" using k assms(1) t by simp
    have d: "drop (base + k) W = W ! (base + k) # drop (base + Suc k) W"
      using k assms(1) by (simp add: Cons_nth_drop_Suc)
    have rdt: "t ! (base + k) = W ! (base + k)"
      using k assms(1) unfolding t d by (simp add: nth_append)
    have upd: "t[base + k := v] = take base W @ map (\<lambda>i. W ! (base + i) + fChange * pInputs ! i) [0..<k]
                  @ v # drop (base + Suc k) W" for v
      using k assms(1) unfolding t d by (simp add: list_update_append)
    show "\<exists>t'. do {
               w \<leftarrow> rd t (base + k);
               x \<leftarrow> rd pInputs k;
               wr t (base + k) (w + fChange * x)
             } = Some t' \<and> ?I (Suc k) t'"
      using k assms len by (simp add: rd_in wr_in rdt upd)
  qed
  then show ?thesis by simp
qed

lemma upt_split_row: "[0..<base + n] = [0..<base] @ map (\<lambda>i. base + i) [0..<n]"
  by (induction n) simp_all

lemma row_index_div_mod:
  assumes "i < (n::nat)"
  shows "(n * k + i) div n = k" "(n * k + i) mod n = i"
  using assms by simp_all

lemma updateWeights_closed_form:
  fixes L :: "'a::{plus,times} Layer"
  assumes wf: "wf_Layer L" and ins: "m_inputCount L \<le> length pInputs"
    and ds: "m_outputCount L \<le> length pDeltas"
  shows "updateWeights L pInputs pDeltas fLearningRate =
           Some (L\<lparr>m_pWeights := map (updated_weight L pInputs pDeltas fLearningRate)
                                   [0..<m_inputCount L * m_outputCount L],
                    m_pBiases := map (updated_bias L pDeltas fLearningRate) [0..<m_outputCount L]\<rparr>)"
proof -
  let ?n = "m_inputCount L" and ?m = "m_outputCount L"
  let ?W = "m_pWeights L" and ?B = "m_pBiases L"
  let ?g = "updated_weight L pInputs pDeltas fLearningRate"
  let ?h = "updated_bias L pDeltas fLearningRate"
  let ?I = "\<lambda>k t. t = L\<lparr>m_pWeights := map ?g [0..<?n * k] @ drop (?n * k) ?W,
                          m_pBiases := map ?h [0..<k] @ drop k ?B\<rparr>"
  let ?body = "\<lambda>out L. do {
          pWeights \<leftarrow> ptr_offset (m_pWeights L) (m_inputCount L * out);
          d \<leftarrow> rd pDeltas out;
          let fChange = d * fLearningRate;
          W \<leftarrow> for_loop 0 (m_inputCount L)
            (\<lambda>i W. do {
               w \<leftarrow> rd W (pWeights + i);
               x \<leftarrow> rd pInputs i;
               wr W (pWeights + i) (w + fChange * x)
             }) (m_pWeights L);
          b \<leftarrow> rd (m_pBiases L) out;
          B \<leftarrow> wr (m_pBiases L) out (b + fChange);
          Some (L\<lparr>m_pWeights := W, m_pBiases := B\<rparr>)
        }"
  have lenW: "length ?W = ?n * ?m" and lenB: "length ?B = ?m"
    using wf by (simp_all add: wf_Layer_def)
  have "\<exists>t. for_loop 0 ?m ?body L = Some t \<and> ?I ?m t"
  proof (rule for_loop_invariant [where I = ?I])
    show "?I 0 L" by simp
    show "0 \<le> ?m" by simp
    fix k t assume k: "k < ?m" and t: "?I k t"
    let ?Wt = "map ?g [0..<?n * k] @ drop (?n * k) ?W"
    let ?Bt = "map ?h [0..<k] @ drop k ?B"
    let ?c = "pDeltas ! k * fLearningRate"
    have row: "?n * k + ?n \<le> ?n * ?m"
    proof -
      have "?n * Suc k \<le> ?n * ?m" using k by (intro mult_le_mono2) simp
      then show ?thesis by simp
    qed
    have base: "?n * k \<le> ?n * ?m" using k by (intro mult_le_mono2) simp
    have lenWt: "length ?Wt = length ?W" using base lenW by simp
    have inner: "for_loop 0 ?n
            (\<lambda>i W. do {
               w \<leftarrow> rd W (?n * k + i);
               x \<leftarrow> rd pInputs i;
               wr W (?n * k + i) (w + ?c * x)
             }) ?Wt
         = Some (take (?n * k) ?Wt @ map (\<lambda>i. ?Wt ! (?n * k + i) + ?c * pInputs ! i) [0..<?n]
                  @ drop (?n * k + ?n) ?Wt)"
      by (rule updateWeights_inner) (use row lenWt lenW ins in simp_all)
    have tk: "take (?n * k) ?Wt = map ?g [0..<?n * k]" by simp
    have dr: "drop (?n * k + ?n) ?Wt = drop (?n * Suc k) ?W"
      using base lenW by (simp add: add.commute)
    have mid: "map (\<lambda>i. ?Wt ! (?n * k + i) + ?c * pInputs ! i) [0..<?n]
               = map ?g (map (\<lambda>i. ?n * k + i) [0..<?n])"
    proof -
      have "?Wt ! (?n * k + i) + ?c * pInputs ! i = ?g (?n * k + i)" if "i < ?n" for i
        using that row lenW base
        by (simp add: nth_append updated_weight_def row_index_div_mod)
      then show ?thesis by simp
    qed
    have newW: "take (?n * k) ?Wt @ map (\<lambda>i. ?Wt ! (?n * k + i) + ?c * pInputs ! i) [0..<?n]
                  @ drop (?n * k + ?n) ?Wt
                = map ?g [0..<?n * Suc k] @ drop (?n * Suc k) ?W"
    proof -
      have "?n * Suc k = ?n * k + ?n" by simp
      then have "[0..<?n * Suc k] = [0..<?n * k] @ map (\<lambda>i. ?n * k + i) [0..<?n]"
        by (simp only: upt_split_row)
      then show ?thesis unfolding tk dr mid by simp
    qed
    have kB: "k < length ?Bt" using k lenB by simp
    have rdB: "?Bt ! k = ?B ! k" using k lenB by (simp add: nth_append)
    have newB: "?Bt[k := ?B ! k + ?c] = map ?h [0..<Suc k] @ drop (Suc k) ?B"
      using prefix_update [of k ?B ?h] k lenB by (simp add: updated_bias_def)
    have "?body k t = Some (L\<lparr>m_pWeights := map ?g [0..<?n * Suc k] @ drop (?n * Suc k) ?W,
                               m_pBiases := map ?h [0..<Suc k] @ drop (Suc k) ?B\<rparr>)"
    proof -
      have p1: "ptr_offset ?Wt (?n * k) = Some (?n * k)"
        using base lenW by (simp add: ptr_offset_in)
      have p2: "rd pDeltas k = Some (pDeltas ! k)"
        using k ds by (simp add: rd_in)
      have p4: "rd ?Bt k = Some (?B ! k)"
        using kB rdB by (simp add: rd_in)
      have p5: "wr ?Bt k (?B ! k + ?c) = Some (map ?h [0..<Suc k] @ drop (Suc k) ?B)"
        using kB newB by (simp add: wr_in del: upt_Suc)
      note p3 = inner [unfolded newW]
      show ?thesis
        unfolding t by (simp add: p1 p2 p3 p4 p5 Let_def del: upt_Suc)
    qed
    then show "\<exists>t'. ?body k t = Some t' \<and> ?I (Suc k) t'" by simp
  qed
  then have "for_loop 0 ?m ?body L =
      Some (L\<lparr>m_pWeights := map ?g [0..<?n * ?m] @ drop (?n * ?m) ?W,
               m_pBiases := map ?h [0..<?m] @ drop ?m ?B\<rparr>)"
    by blast
  moreover have "drop (?n * ?m) ?W = []" "drop ?m ?B = []"
    using lenW lenB by simp_all
  ultimately show ?thesis
    unfolding updateWeights_def by (simp only: append_Nil2)
qed

text \<open>
  The update in one expression, and the size invariant it keeps.
\<close>

lemma updated_layer_shape:
  "m_inputCount (updated_layer L xs ds lr) = m_inputCount L"
  "m_outputCount (updated_layer L xs ds lr) = m_outputCount L"
  "wf_Layer L \<Longrightarrow> wf_Layer (updated_layer L xs ds lr)"
  by (simp_all add: updated_layer_def wf_Layer_def)

lemma updateWeights_updated_layer:
  fixes L :: "'a::{plus,times} Layer"
  assumes "wf_Layer L" "m_inputCount L \<le> length pInputs" "m_outputCount L \<le> length pDeltas"
  shows "updateWeights L pInputs pDeltas fLearningRate
           = Some (updated_layer L pInputs pDeltas fLearningRate)"
  unfolding updated_layer_def by (rule updateWeights_closed_form [OF assms])

lemma updateWeights_wf:
  fixes L :: "'a::{plus,times} Layer"
  assumes "wf_Layer L" "m_inputCount L \<le> length pInputs" "m_outputCount L \<le> length pDeltas"
    and "updateWeights L pInputs pDeltas fLearningRate = Some L'"
  shows "wf_Layer L'" "m_inputCount L' = m_inputCount L" "m_outputCount L' = m_outputCount L"
  using assms(4) updated_layer_shape [of L pInputs pDeltas fLearningRate] assms(1)
  unfolding updateWeights_updated_layer [OF assms(1-3)]
  by auto

text \<open>
  C7. For a layer whose arrays have their sizes, an input array of at least \<open>n_in\<close>
  cells and a delta array of at least \<open>n_out\<close> cells, \<open>updateWeights\<close> returns the layer
  with \<open>W[n_in * o + i] + learningRate * deltas[o] * inputs[i]\<close> in place of
  \<open>W[n_in * o + i]\<close> and \<open>b[o] + learningRate * deltas[o]\<close> in place of \<open>b[o]\<close>, the
  widths and the sizes of both arrays unchanged. (The code multiplies
  \<open>deltas[o] * learningRate\<close> first and the input second; \<open>updateWeights_closed_form\<close>
  states it so for every arithmetic.)
\<close>

theorem updateWeights_computes:
  fixes L :: "real Layer"
  assumes "wf_Layer L" "m_inputCount L \<le> length pInputs" "m_outputCount L \<le> length pDeltas"
  shows "\<exists>L'. updateWeights L pInputs pDeltas fLearningRate = Some L' \<and>
           m_inputCount L' = m_inputCount L \<and> m_outputCount L' = m_outputCount L \<and>
           length (m_pWeights L') = length (m_pWeights L) \<and>
           length (m_pBiases L') = length (m_pBiases L) \<and>
           (\<forall>out<m_outputCount L. \<forall>i<m_inputCount L.
              m_pWeights L' ! (m_inputCount L * out + i) =
                m_pWeights L ! (m_inputCount L * out + i) + fLearningRate * pDeltas ! out * pInputs ! i) \<and>
           (\<forall>out<m_outputCount L.
              m_pBiases L' ! out = m_pBiases L ! out + fLearningRate * pDeltas ! out)"
proof -
  have idx: "m_inputCount L * out + i < m_inputCount L * m_outputCount L"
    if "out < m_outputCount L" "i < m_inputCount L" for out i
  proof -
    have "m_inputCount L * out + i < m_inputCount L * Suc out" using that by simp
    also have "\<dots> \<le> m_inputCount L * m_outputCount L"
      using that by (intro mult_le_mono2) simp
    finally show ?thesis .
  qed
  let ?L' = "L\<lparr>m_pWeights := map (updated_weight L pInputs pDeltas fLearningRate)
                                   [0..<m_inputCount L * m_outputCount L],
                    m_pBiases := map (updated_bias L pDeltas fLearningRate) [0..<m_outputCount L]\<rparr>"
  have run: "updateWeights L pInputs pDeltas fLearningRate = Some ?L'"
    by (rule updateWeights_closed_form [OF assms])
  have lens: "length (m_pWeights ?L') = length (m_pWeights L)"
      "length (m_pBiases ?L') = length (m_pBiases L)"
    using assms(1) by (simp_all add: wf_Layer_def)
  have w: "m_pWeights ?L' ! (m_inputCount L * out + i) =
             m_pWeights L ! (m_inputCount L * out + i) + fLearningRate * pDeltas ! out * pInputs ! i"
    if "out < m_outputCount L" "i < m_inputCount L" for out i
  proof -
    have "m_pWeights ?L' ! (m_inputCount L * out + i) =
            updated_weight L pInputs pDeltas fLearningRate (m_inputCount L * out + i)"
      using idx [OF that] by simp
    also have "\<dots> = m_pWeights L ! (m_inputCount L * out + i) +
                  (pDeltas ! out * fLearningRate) * pInputs ! i"
      using that(2) by (simp only: updated_weight_def row_index_div_mod)
    finally show ?thesis by (simp only: mult.commute [of "pDeltas ! out" fLearningRate])
  qed
  have b: "m_pBiases ?L' ! out = m_pBiases L ! out + fLearningRate * pDeltas ! out"
    if "out < m_outputCount L" for out
    using that by (simp add: updated_bias_def mult.commute [of "pDeltas ! out" fLearningRate])
  show ?thesis
    using run lens w b by (intro exI [of _ ?L']) simp
qed

theorem updateWeights_computes_witness:
  "wf_Layer \<lparr>m_inputCount = 2, m_outputCount = 1, m_pWeights = [1, 2], m_pBiases = [3 :: real]\<rparr> \<and>
   updateWeights \<lparr>m_inputCount = 2, m_outputCount = 1, m_pWeights = [1, 2], m_pBiases = [3]\<rparr>
       [1, 2] [1 / 2] 2
     = Some \<lparr>m_inputCount = 2, m_outputCount = 1, m_pWeights = [2, 4], m_pBiases = [4 :: real]\<rparr>"
proof -
  let ?L = "\<lparr>m_inputCount = 2, m_outputCount = 1, m_pWeights = [1, 2], m_pBiases = [3 :: real]\<rparr>"
  have wf: "wf_Layer ?L" by (simp add: wf_Layer_def)
  from updateWeights_computes [OF wf, of "[1, 2]" "[1 / 2]" 2]
  obtain L' where run: "updateWeights ?L [1, 2] [1 / 2] 2 = Some L'"
    and dims: "m_inputCount L' = 2" "m_outputCount L' = 1"
    and lens: "length (m_pWeights L') = 2" "length (m_pBiases L') = 1"
    and w: "\<forall>out<1. \<forall>i<2. m_pWeights L' ! (2 * out + i) =
                m_pWeights ?L ! (2 * out + i) + 2 * [1 / 2] ! out * [1, 2] ! i"
    and b: "\<forall>out<1. m_pBiases L' ! out = m_pBiases ?L ! out + 2 * [1 / 2] ! out"
    by auto
  have "m_pWeights L' ! 0 = 2" "m_pWeights L' ! 1 = 4"
    using w by (simp_all add: numeral_2_eq_2)
  then have W: "m_pWeights L' = [2, 4]"
    using list_of_two [OF lens(1)] by simp
  have "m_pBiases L' ! 0 = 4" using b by simp
  then have B: "m_pBiases L' = [4]"
    using lens(2) by (cases "m_pBiases L'") simp_all
  have "L' = \<lparr>m_inputCount = 2, m_outputCount = 1, m_pWeights = [2, 4], m_pBiases = [4]\<rparr>"
    using dims W B by (cases L') simp
  then show ?thesis using wf run by simp
qed

subsection \<open>All-zero deltas\<close>

lemma ieee_zero_times_finite:
  assumes "is_zero z" "is_finite x"
  shows "is_zero (z * x)"
  using assms by (cases z; cases x) (auto simp: times_ieee_def)

lemma ieee_plus_zero:
  assumes "w \<noteq> MZero" "is_zero z"
  shows "w + z = w"
  using assms by (cases w; cases z) (auto simp: plus_ieee_def)

text \<open>
  A sum is negative zero only when both operands are. So no weight or bias of the
  program is ever negative zero: the constructor's values are numbers of \<open>[0.5, 0.9)\<close>
  (at type \<open>ieee\<close>, \<open>Fin v\<close> with \<open>0.5 \<le> v\<close>), and \<open>updateWeights\<close>, the one
  function that writes them afterwards, makes each new value by an addition to the old
  one, so it keeps them different from negative zero, whatever its arguments.
\<close>

lemma ieee_plus_not_MZero:
  assumes "w \<noteq> MZero"
  shows "w + t \<noteq> MZero"
  using assms by (cases w; cases t) (auto simp: plus_ieee_def)

lemma updateWeights_no_negative_zero:
  fixes L :: "ieee Layer"
  assumes wf: "wf_Layer L"
    and ins: "m_inputCount L \<le> length pInputs" and ds: "m_outputCount L \<le> length pDeltas"
    and W: "\<forall>w\<in>set (m_pWeights L). w \<noteq> MZero"
    and B: "\<forall>b\<in>set (m_pBiases L). b \<noteq> MZero"
  shows "\<exists>L'. updateWeights L pInputs pDeltas fLearningRate = Some L' \<and>
           (\<forall>w\<in>set (m_pWeights L'). w \<noteq> MZero) \<and> (\<forall>b\<in>set (m_pBiases L'). b \<noteq> MZero)"
proof -
  let ?n = "m_inputCount L" and ?m = "m_outputCount L"
  have lenW: "length (m_pWeights L) = ?n * ?m" and lenB: "length (m_pBiases L) = ?m"
    using wf by (simp_all add: wf_Layer_def)
  have w: "updated_weight L pInputs pDeltas fLearningRate idx \<noteq> MZero"
    if "idx < ?n * ?m" for idx
  proof -
    have "m_pWeights L ! idx \<in> set (m_pWeights L)" using that lenW by simp
    then have "m_pWeights L ! idx \<noteq> MZero" using W by blast
    then show ?thesis unfolding updated_weight_def by (rule ieee_plus_not_MZero)
  qed
  have b: "updated_bias L pDeltas fLearningRate out \<noteq> MZero" if "out < ?m" for out
  proof -
    have "m_pBiases L ! out \<in> set (m_pBiases L)" using that lenB by simp
    then have "m_pBiases L ! out \<noteq> MZero" using B by blast
    then show ?thesis unfolding updated_bias_def by (rule ieee_plus_not_MZero)
  qed
  show ?thesis
    using w b by (auto simp: updateWeights_closed_form [OF wf ins ds])
qed

text \<open>
  A weight or bias that is negative zero would not survive an update by zero:
  \<open>-0 + +0 = +0\<close>, another bit pattern. This is why the statement below excludes it.
\<close>

lemma updateWeights_negative_zero_weight:
  "updateWeights \<lparr>m_inputCount = 1, m_outputCount = 1, m_pWeights = [MZero], m_pBiases = [MZero]\<rparr>
       [Fin 1] [Fin 0] (Fin (1 / 5))
     = Some \<lparr>m_inputCount = 1, m_outputCount = 1, m_pWeights = [Fin 0], m_pBiases = [Fin 0]\<rparr>"
  by (simp add: updateWeights_closed_form wf_Layer_def updated_weight_def updated_bias_def
      times_ieee_def plus_ieee_def)

text \<open>
  C8 fails as stated. With IEEE 754 floats, a layer as the constructor may build it
  and an all-zero delta array: an infinite learning rate makes \<open>fChange = 0 * \<infinity>\<close> a
  NaN, and every weight and bias becomes NaN; an infinite input makes the weight it
  multiplies NaN.
\<close>

theorem updateWeights_zero_deltas_not_identity:
  "updateWeights
       \<lparr>m_inputCount = 1, m_outputCount = 1, m_pWeights = [Fin (1 / 2)], m_pBiases = [Fin (1 / 2)]\<rparr>
       [Fin 1] [Fin 0] PInf
     = Some \<lparr>m_inputCount = 1, m_outputCount = 1, m_pWeights = [NaN], m_pBiases = [NaN]\<rparr> \<and>
   updateWeights
       \<lparr>m_inputCount = 1, m_outputCount = 1, m_pWeights = [Fin (1 / 2)], m_pBiases = [Fin (1 / 2)]\<rparr>
       [PInf] [Fin 0] (Fin (1 / 5))
     = Some \<lparr>m_inputCount = 1, m_outputCount = 1, m_pWeights = [NaN], m_pBiases = [Fin (1 / 2)]\<rparr>"
  by (simp add: updateWeights_closed_form wf_Layer_def updated_weight_def updated_bias_def
      times_ieee_def plus_ieee_def)

text \<open>
  C8, amended. For a layer state of the program (no weight or bias is negative zero;
  they may be any other value, infinite ones included), a finite learning rate and
  finite inputs, \<open>updateWeights\<close> with deltas that are zeros (of either sign) returns the
  layer unchanged, value by value. Only the \<open>n_in\<close> inputs and the \<open>n_out\<close> deltas that
  the function reads are constrained.
\<close>

theorem updateWeights_zero_deltas_unchanged:
  fixes L :: "ieee Layer"
  assumes wf: "wf_Layer L"
    and ins: "m_inputCount L \<le> length pInputs" and ds: "m_outputCount L \<le> length pDeltas"
    and zero: "\<forall>out<m_outputCount L. is_zero (pDeltas ! out)"
    and lr: "is_finite fLearningRate"
    and fin: "\<forall>i<m_inputCount L. is_finite (pInputs ! i)"
    and W: "\<forall>w\<in>set (m_pWeights L). w \<noteq> MZero"
    and B: "\<forall>b\<in>set (m_pBiases L). b \<noteq> MZero"
  shows "updateWeights L pInputs pDeltas fLearningRate = Some L"
proof -
  let ?n = "m_inputCount L" and ?m = "m_outputCount L"
  have lenW: "length (m_pWeights L) = ?n * ?m" and lenB: "length (m_pBiases L) = ?m"
    using wf by (simp_all add: wf_Layer_def)
  have change: "is_zero (pDeltas ! out * fLearningRate)" if "out < ?m" for out
  proof -
    have "is_zero (pDeltas ! out)" using that zero by blast
    then show ?thesis using lr by (rule ieee_zero_times_finite)
  qed
  have w: "updated_weight L pInputs pDeltas fLearningRate idx = m_pWeights L ! idx"
    if "idx < ?n * ?m" for idx
  proof -
    have n: "0 < ?n" using that by (cases "?n") simp_all
    have row: "idx div ?n < ?m" using that n by (simp add: less_mult_imp_div_less mult.commute)
    have "idx mod ?n < ?n" using n by simp
    then have "is_finite (pInputs ! (idx mod ?n))" using fin by blast
    with change [OF row]
    have z: "is_zero (pDeltas ! (idx div ?n) * fLearningRate * pInputs ! (idx mod ?n))"
      by (rule ieee_zero_times_finite)
    have "m_pWeights L ! idx \<in> set (m_pWeights L)" using that lenW by simp
    then have "m_pWeights L ! idx \<noteq> MZero" using W by blast
    then show ?thesis
      unfolding updated_weight_def using z by (rule ieee_plus_zero)
  qed
  have b: "updated_bias L pDeltas fLearningRate out = m_pBiases L ! out" if "out < ?m" for out
  proof -
    have "m_pBiases L ! out \<in> set (m_pBiases L)" using that lenB by simp
    then have "m_pBiases L ! out \<noteq> MZero" using B by blast
    then show ?thesis
      unfolding updated_bias_def using change [OF that] by (rule ieee_plus_zero)
  qed
  have "map (updated_weight L pInputs pDeltas fLearningRate) [0..<?n * ?m] = m_pWeights L"
    using w lenW by (intro nth_equalityI) simp_all
  moreover have "map (updated_bias L pDeltas fLearningRate) [0..<?m] = m_pBiases L"
    using b lenB by (intro nth_equalityI) simp_all
  ultimately show ?thesis
    by (simp add: updateWeights_closed_form [OF wf ins ds])
qed

theorem updateWeights_zero_deltas_unchanged_witness:
  "wf_Layer \<lparr>m_inputCount = 1, m_outputCount = 1, m_pWeights = [PInf], m_pBiases = [Fin 2]\<rparr> \<and>
   is_zero MZero \<and> is_finite (Fin (1 / 5)) \<and> is_finite (Fin 3) \<and>
   PInf \<noteq> MZero \<and> Fin 2 \<noteq> MZero \<and>
   updateWeights \<lparr>m_inputCount = 1, m_outputCount = 1, m_pWeights = [PInf], m_pBiases = [Fin 2]\<rparr>
       [Fin 3] [MZero] (Fin (1 / 5))
     = Some \<lparr>m_inputCount = 1, m_outputCount = 1, m_pWeights = [PInf], m_pBiases = [Fin 2]\<rparr>"
  using updateWeights_zero_deltas_unchanged
    [of "\<lparr>m_inputCount = 1, m_outputCount = 1, m_pWeights = [PInf], m_pBiases = [Fin 2]\<rparr>"
        "[Fin 3]" "[MZero]" "Fin (1 / 5)"]
  by (simp add: wf_Layer_def)

section \<open>computeOutputDeltas\<close>

lemma computeOutputDeltas_closed_form:
  fixes L :: "'a::{zero,one,plus,minus,times,ord} Layer"
  assumes "m_outputCount L \<le> length pOutputValues" "m_outputCount L \<le> length pExpectedValues"
    and "m_outputCount L \<le> length pDeltas"
  shows "computeOutputDeltas expf L pOutputValues pExpectedValues pDeltas =
           Some (map (output_delta expf pOutputValues pExpectedValues) [0..<m_outputCount L]
                   @ drop (m_outputCount L) pDeltas,
                 squared_error_sum pOutputValues pExpectedValues (m_outputCount L))"
proof -
  let ?m = "m_outputCount L"
  let ?g = "output_delta expf pOutputValues pExpectedValues"
  let ?I = "\<lambda>k t. t = (map ?g [0..<k] @ drop k pDeltas,
                         squared_error_sum pOutputValues pExpectedValues k)"
  let ?body = "\<lambda>out (pDeltas, fTotalQuadraticError). do {
          fOutput \<leftarrow> rd pOutputValues out;
          e \<leftarrow> rd pExpectedValues out;
          let fError = e - fOutput;
          pDeltas \<leftarrow> wr pDeltas out (fError * transferDerivative expf fOutput);
          Some (pDeltas, fTotalQuadraticError + fError * fError)
        }"
  have "\<exists>t. for_loop 0 ?m ?body (pDeltas, 0) = Some t \<and> ?I ?m t"
  proof (rule for_loop_invariant [where I = ?I])
    show "?I 0 (pDeltas, 0)" by (simp add: squared_error_sum_def)
    show "0 \<le> ?m" by simp
    fix k t assume k: "k < ?m" and t: "?I k t"
    have w: "wr (map ?g [0..<k] @ drop k pDeltas) k (?g k)
               = Some (map ?g [0..<Suc k] @ drop (Suc k) pDeltas)"
      using k assms(3) by (simp add: wr_in prefix_update del: upt_Suc)
    have "?body k t = Some (map ?g [0..<Suc k] @ drop (Suc k) pDeltas,
                            squared_error_sum pOutputValues pExpectedValues (Suc k))"
      unfolding t using k assms(1,2) w
      by (simp add: rd_in Let_def output_delta_def output_error_def squared_error_sum_def
            del: upt_Suc)
         (simp add: squared_error_sum_def output_error_def)
    then show "\<exists>t'. ?body k t = Some t' \<and> ?I (Suc k) t'" by simp
  qed
  then show ?thesis unfolding computeOutputDeltas_def by blast
qed

lemma power2_sum_real:
  fixes pOutputValues :: "real list"
  shows "squared_error_sum pOutputValues pExpectedValues n =
           (\<Sum>out<n. (pExpectedValues ! out - pOutputValues ! out)\<^sup>2)"
  using foldl_add_sum [of "\<lambda>out. (pExpectedValues ! out - pOutputValues ! out) *
                                  (pExpectedValues ! out - pOutputValues ! out)" 0 n]
  by (simp add: squared_error_sum_def output_error_def power2_eq_square)

text \<open>
  C5. For arrays of at least \<open>n_out\<close> cells, \<open>computeOutputDeltas\<close> returns the delta
  array with \<open>deltas[o] = (expected[o] - output[o]) * transferDerivative (output[o])\<close>
  for every unit \<open>o\<close> (its other cells as they were), and the scalar
  \<open>\<Sum>o<n_out. (expected[o] - output[o])\<^sup>2\<close>.
\<close>

theorem computeOutputDeltas_computes:
  fixes L :: "real Layer"
  assumes "m_outputCount L \<le> length pOutputValues" "m_outputCount L \<le> length pExpectedValues"
    and "m_outputCount L \<le> length pDeltas"
  shows "\<exists>ds e. computeOutputDeltas exp L pOutputValues pExpectedValues pDeltas = Some (ds, e) \<and>
           length ds = length pDeltas \<and>
           (\<forall>out<m_outputCount L. ds ! out =
              (pExpectedValues ! out - pOutputValues ! out) * transferDerivative exp (pOutputValues ! out)) \<and>
           (\<forall>j. m_outputCount L \<le> j \<and> j < length pDeltas \<longrightarrow> ds ! j = pDeltas ! j) \<and>
           e = (\<Sum>out<m_outputCount L. (pExpectedValues ! out - pOutputValues ! out)\<^sup>2)"
  using assms(3)
  by (simp add: computeOutputDeltas_closed_form [OF assms] nth_append power2_sum_real
      output_delta_def output_error_def)

theorem computeOutputDeltas_computes_witness:
  "computeOutputDeltas exp
       \<lparr>m_inputCount = 1, m_outputCount = 2, m_pWeights = [1, 1], m_pBiases = [0, 0 :: real]\<rparr>
       [1, - 1] [3, 0] [0, 0]
     = Some ([2, exp (- 1)], 5)"
proof -
  let ?L = "\<lparr>m_inputCount = 1, m_outputCount = 2, m_pWeights = [1, 1], m_pBiases = [0, 0 :: real]\<rparr>"
  from computeOutputDeltas_computes [of ?L "[1, - 1]" "[3, 0]" "[0, 0]"]
  obtain ds e where run: "computeOutputDeltas exp ?L [1, - 1] [3, 0] [0, 0] = Some (ds, e)"
    and len: "length ds = 2"
    and val: "\<forall>out<2. ds ! out = ([3, 0] ! out - [1, - 1] ! out) * transferDerivative exp ([1, - 1] ! out)"
    and err: "e = (\<Sum>out<2. ([3, 0] ! out - [1, - 1 :: real] ! out)\<^sup>2)"
    by auto
  have "ds ! 0 = 2" "ds ! 1 = exp (- 1)"
    using val by (simp_all add: numeral_2_eq_2 transferDerivative_def eluDerivative_def)
  then have "ds = [2, exp (- 1)]"
    using list_of_two [OF len] by simp
  moreover have "e = 5" using err by (simp add: numeral_2_eq_2)
  ultimately show ?thesis using run by simp
qed

section \<open>computeDeltas\<close>

lemma computeDeltas_inner:
  fixes W :: "'a::{zero,plus,times} list"
  assumes "n \<le> length pNextDeltas" "\<And>i. i < n \<Longrightarrow> stride * i + out < length W"
  shows "for_loop 0 n
            (\<lambda>i fError. do {
               d \<leftarrow> rd pNextDeltas i;
               w \<leftarrow> rd W (stride * i + out);
               Some (fError + d * w)
             }) a
         = Some (foldl (\<lambda>a i. a + pNextDeltas ! i * W ! (stride * i + out)) a [0..<n])"
  by (rule for_loop_foldl) (use assms in \<open>simp add: rd_in\<close>)

lemma strided_index_bound:
  assumes "i < (n::nat)" "out < m"
  shows "m * i + out < m * n"
proof -
  have "m * i + out < m * Suc i" using assms(2) by simp
  also have "\<dots> \<le> m * n" using assms(1) by (intro mult_le_mono2) simp
  finally show ?thesis .
qed

lemma computeDeltas_closed_form:
  fixes L :: "'a::{zero,one,plus,times,ord} Layer"
  assumes nd: "m_outputCount pNextLayer \<le> length pNextDeltas"
    and W: "m_outputCount L * m_outputCount pNextLayer \<le> length (m_pWeights pNextLayer)"
    and vs: "m_outputCount L \<le> length pValues"
    and ds: "m_outputCount L \<le> length pDeltas"
  shows "computeDeltas expf L pNextLayer pNextDeltas pValues pDeltas =
           Some (map (hidden_delta expf L pNextLayer pNextDeltas pValues) [0..<m_outputCount L]
                   @ drop (m_outputCount L) pDeltas)"
  unfolding computeDeltas_def
proof (rule for_loop_fill)
  show "m_outputCount L \<le> length pDeltas" by fact
  fix k t assume k: "k < m_outputCount L"
  have inner: "for_loop 0 (m_outputCount pNextLayer)
            (\<lambda>i fError. do {
               d \<leftarrow> rd pNextDeltas i;
               w \<leftarrow> rd (m_pWeights pNextLayer) (m_outputCount L * i + k);
               Some (fError + d * w)
             }) 0 = Some (backprop_error L pNextLayer pNextDeltas k)"
    unfolding backprop_error_def
  proof (rule computeDeltas_inner [OF nd])
    fix i assume "i < m_outputCount pNextLayer"
    from strided_index_bound [OF this k] W
    show "m_outputCount L * i + k < length (m_pWeights pNextLayer)" by simp
  qed
  show "do {
          fError \<leftarrow> for_loop 0 (m_outputCount pNextLayer)
            (\<lambda>i fError. do {
               d \<leftarrow> rd pNextDeltas i;
               w \<leftarrow> rd (m_pWeights pNextLayer) (m_outputCount L * i + k);
               Some (fError + d * w)
             }) 0;
          v \<leftarrow> rd pValues k;
          wr t k (fError * transferDerivative expf v)
        } = wr t k (hidden_delta expf L pNextLayer pNextDeltas pValues k)"
    using k vs by (simp add: inner rd_in hidden_delta_def)
qed

lemma backprop_error_real:
  fixes L :: "real Layer"
  shows "backprop_error L pNextLayer pNextDeltas out =
           (\<Sum>k<m_outputCount pNextLayer.
               pNextDeltas ! k * m_pWeights pNextLayer ! (m_outputCount L * k + out))"
  by (simp add: backprop_error_def foldl_add_sum)

text \<open>
  C2. For a downstream layer \<open>N\<close> whose arrays have their sizes and with
  \<open>N.n_in = L.n_out\<close>, a delta array of \<open>N\<close> of at least \<open>N.n_out\<close> cells, and value and
  delta arrays of \<open>L\<close> of at least \<open>L.n_out\<close> cells, \<open>computeDeltas\<close> returns the delta
  array with
  \<open>deltas[o] = (\<Sum>k<N.n_out. nextDeltas[k] * N.W[N.n_in * k + o]) * transferDerivative (values[o])\<close>
  for every unit \<open>o\<close> of \<open>L\<close>.
\<close>

theorem computeDeltas_computes:
  fixes L :: "real Layer"
  assumes "wf_Layer pNextLayer" "m_inputCount pNextLayer = m_outputCount L"
    and "m_outputCount pNextLayer \<le> length pNextDeltas"
    and "m_outputCount L \<le> length pValues" "m_outputCount L \<le> length pDeltas"
  shows "\<exists>ds. computeDeltas exp L pNextLayer pNextDeltas pValues pDeltas = Some ds \<and>
           length ds = length pDeltas \<and>
           (\<forall>out<m_outputCount L. ds ! out =
              (\<Sum>k<m_outputCount pNextLayer.
                  pNextDeltas ! k * m_pWeights pNextLayer ! (m_inputCount pNextLayer * k + out))
              * transferDerivative exp (pValues ! out)) \<and>
           (\<forall>j. m_outputCount L \<le> j \<and> j < length pDeltas \<longrightarrow> ds ! j = pDeltas ! j)"
proof -
  have W: "m_outputCount L * m_outputCount pNextLayer \<le> length (m_pWeights pNextLayer)"
    using assms(1,2) by (simp add: wf_Layer_def)
  show ?thesis
    using assms(2,5)
    by (simp add: computeDeltas_closed_form [OF assms(3) W assms(4,5)] nth_append
        hidden_delta_def backprop_error_real)
qed

theorem computeDeltas_computes_witness:
  "wf_Layer \<lparr>m_inputCount = 2, m_outputCount = 2, m_pWeights = [1, 2, 3, 4], m_pBiases = [0, 0 :: real]\<rparr> \<and>
   computeDeltas exp
       \<lparr>m_inputCount = 1, m_outputCount = 2, m_pWeights = [1, 1], m_pBiases = [0, 0]\<rparr>
       \<lparr>m_inputCount = 2, m_outputCount = 2, m_pWeights = [1, 2, 3, 4], m_pBiases = [0, 0]\<rparr>
       [1, 2] [1, - 1] [0, 0]
     = Some [7, 10 * exp (- 1) :: real]"
proof -
  let ?L = "\<lparr>m_inputCount = 1, m_outputCount = 2, m_pWeights = [1, 1], m_pBiases = [0, 0 :: real]\<rparr>"
  let ?N = "\<lparr>m_inputCount = 2, m_outputCount = 2, m_pWeights = [1, 2, 3, 4], m_pBiases = [0, 0 :: real]\<rparr>"
  have wf: "wf_Layer ?N" by (simp add: wf_Layer_def)
  have pre: "m_inputCount ?N = m_outputCount ?L" by simp
  from computeDeltas_computes [OF wf pre, of "[1, 2]" "[1, - 1]" "[0, 0]"]
  obtain ds where run: "computeDeltas exp ?L ?N [1, 2] [1, - 1] [0, 0] = Some ds"
    and len: "length ds = 2"
    and val: "\<forall>out<2. ds ! out =
                (\<Sum>k<2. [1, 2] ! k * m_pWeights ?N ! (2 * k + out)) * transferDerivative exp ([1, - 1] ! out)"
    by auto
  have "ds ! 0 = 7" "ds ! 1 = 10 * exp (- 1)"
    using val by (simp_all add: numeral_2_eq_2 transferDerivative_def eluDerivative_def)
  then have "ds = [7, 10 * exp (- 1)]"
    using list_of_two [OF len] by simp
  then show ?thesis using wf run by simp
qed

section \<open>Rounding to binary32\<close>

lemma rne_of_int: "rne (of_int n) = n"
  by (simp add: rne_def)

lemma rne_bounds: "\<lfloor>x\<rfloor> \<le> rne x" "rne x \<le> \<lfloor>x\<rfloor> + 1"
  by (simp_all add: rne_def Let_def)

lemma rne_mono:
  assumes "x \<le> y"
  shows "rne x \<le> rne y"
proof (cases "\<lfloor>x\<rfloor> = \<lfloor>y\<rfloor>")
  case True
  then show ?thesis
    using assms by (auto simp: rne_def Let_def)
next
  case False
  then have "\<lfloor>x\<rfloor> + 1 \<le> \<lfloor>y\<rfloor>"
    using floor_mono [OF assms] by linarith
  then show ?thesis
    using rne_bounds(2) [of x] rne_bounds(1) [of y] by linarith
qed

lemma rne_error: "\<bar>of_int (rne x) - x\<bar> \<le> 1 / 2"
  unfolding rne_def Let_def by (simp; linarith)

lemma pow2_powr: "pow2 e = 2 powr of_int e"
proof (cases "0 \<le> e")
  case True
  then have "(2::real) powr of_int e = 2 powr real (nat e)" by simp
  also have "\<dots> = 2 ^ nat e" by (simp only: powr_realpow zero_less_numeral)
  finally show ?thesis using True by (simp add: pow2_def)
next
  case False
  then have "(2::real) powr of_int e = 2 powr - real (nat (- e))" by simp
  also have "\<dots> = 1 / 2 powr real (nat (- e))" by (simp only: powr_minus_divide)
  also have "\<dots> = 1 / 2 ^ nat (- e)" by (simp only: powr_realpow zero_less_numeral)
  finally show ?thesis using False by (simp add: pow2_def)
qed

lemma pow2_pos: "0 < pow2 e"
  by (simp add: pow2_powr)

lemma pow2_le_iff: "pow2 a \<le> pow2 b \<longleftrightarrow> a \<le> b"
  by (simp add: pow2_powr)

lemma pow2_less_iff: "pow2 a < pow2 b \<longleftrightarrow> a < b"
  by (simp add: pow2_powr)

lemma pow2_add: "pow2 (a + b) = pow2 a * pow2 b"
  by (simp add: pow2_powr powr_add)

lemma binade_set:
  "finite {e \<in> {- 126..127 :: int}. P e}"
  "- 126 \<in> {e \<in> {- 126..127}. e = - 126 \<or> pow2 e \<le> \<bar>x\<bar>}"
  by (rule finite_subset [where B = "{- 126..127}"]) auto

lemma binade_in:
  "binade x \<in> {e \<in> {- 126..127}. e = - 126 \<or> pow2 e \<le> \<bar>x\<bar>}"
  unfolding binade_def using binade_set(2) [of x] by (intro Max_in binade_set(1)) blast

lemma binade_range: "- 126 \<le> binade x" "binade x \<le> 127"
  using binade_in [of x] by simp_all

lemma binade_ge:
  assumes "- 126 \<le> e" "e \<le> 127" "pow2 e \<le> \<bar>x\<bar>"
  shows "e \<le> binade x"
  unfolding binade_def using assms by (intro Max_ge binade_set(1)) simp

lemma binade_lower:
  assumes "- 126 < binade x"
  shows "pow2 (binade x) \<le> \<bar>x\<bar>"
  using binade_in [of x] assms by auto

lemma binade_upper:
  assumes "binade x < 127"
  shows "\<bar>x\<bar> < pow2 (binade x + 1)"
proof (rule ccontr)
  assume "\<not> \<bar>x\<bar> < pow2 (binade x + 1)"
  then have "binade x + 1 \<le> binade x"
    using assms binade_range(1) [of x] by (intro binade_ge [of "binade x + 1" x]) simp_all
  then show False by simp
qed

lemma binade_mono:
  assumes "\<bar>x\<bar> \<le> \<bar>y\<bar>"
  shows "binade x \<le> binade y"
proof (cases "binade x = - 126")
  case True
  then show ?thesis using binade_range(1) [of y] by simp
next
  case False
  then have "- 126 < binade x" using binade_range(1) [of x] by simp
  then have "pow2 (binade x) \<le> \<bar>y\<bar>" using binade_lower [of x] assms by simp
  then show ?thesis using binade_range [of x] by (intro binade_ge [of "binade x" y]) simp_all
qed

lemma binade_eqI:
  assumes "pow2 e \<le> \<bar>x\<bar>" "\<bar>x\<bar> < pow2 (e + 1)" "- 126 \<le> e" "e \<le> 127"
  shows "binade x = e"
proof (rule antisym)
  show "e \<le> binade x" using assms by (intro binade_ge [of e x]) simp_all
  show "binade x \<le> e"
  proof (cases "binade x = - 126")
    case True
    then show ?thesis using assms(3) by simp
  next
    case False
    then have "- 126 < binade x" using binade_range(1) [of x] by simp
    then have "pow2 (binade x) \<le> \<bar>x\<bar>" by (rule binade_lower)
    then have "pow2 (binade x) < pow2 (e + 1)" using assms(2) by simp
    then show ?thesis by (simp add: pow2_powr)
  qed
qed

lemma fl32_upper:
  assumes "0 < x" "binade x < 127"
  shows "fl32 x \<le> pow2 (binade x + 1)"
proof -
  let ?u = "pow2 (binade x - 23)"
  have u: "0 < ?u" by (rule pow2_pos)
  have "pow2 24 = 16777216" by (simp add: pow2_def)
  then have eq: "pow2 (binade x + 1) = ?u * 16777216"
    using pow2_add [of "binade x - 23" 24] by (simp add: add.commute)
  have "x < ?u * 16777216"
    using binade_upper [OF assms(2)] assms(1) by (simp add: eq)
  then have "x / ?u \<le> of_int 16777216"
    using u by (simp add: pos_divide_le_eq mult.commute)
  then have "rne (x / ?u) \<le> 16777216"
    using rne_mono [of "x / ?u" "of_int 16777216"] by (simp only: rne_of_int)
  then have "of_int (rne (x / ?u)) \<le> (16777216 :: real)" by linarith
  then have "?u * of_int (rne (x / ?u)) \<le> ?u * 16777216"
    using u by (simp only: mult_le_cancel_left_pos)
  then show ?thesis by (simp add: fl32_def Let_def eq)
qed

lemma fl32_lower:
  assumes "0 < x" "- 126 < binade x"
  shows "pow2 (binade x) \<le> fl32 x"
proof -
  let ?u = "pow2 (binade x - 23)"
  have u: "0 < ?u" by (rule pow2_pos)
  have "pow2 23 = 8388608" by (simp add: pow2_def)
  then have eq: "pow2 (binade x) = ?u * 8388608"
    using pow2_add [of "binade x - 23" 23] by simp
  have "?u * 8388608 \<le> x"
    using binade_lower [OF assms(2)] assms(1) by (simp add: eq)
  then have "of_int 8388608 \<le> x / ?u"
    using u by (simp add: pos_le_divide_eq mult.commute)
  then have "8388608 \<le> rne (x / ?u)"
    using rne_mono [of "of_int 8388608" "x / ?u"] by (simp only: rne_of_int)
  then have "(8388608 :: real) \<le> of_int (rne (x / ?u))" by linarith
  then have "?u * 8388608 \<le> ?u * of_int (rne (x / ?u))"
    using u by (simp only: mult_le_cancel_left_pos)
  then show ?thesis by (simp add: fl32_def Let_def eq)
qed

lemma fl32_zero: "fl32 0 = 0"
  by (simp add: fl32_def rne_def)

lemma fl32_nonneg:
  assumes "0 \<le> x"
  shows "0 \<le> fl32 x"
proof -
  let ?u = "pow2 (binade x - 23)"
  have "0 \<le> x / ?u" using assms pow2_pos [of "binade x - 23"] by simp
  then have "rne 0 \<le> rne (x / ?u)" by (rule rne_mono)
  then have "0 \<le> rne (x / ?u)" by (simp add: rne_def)
  then show ?thesis using pow2_pos [of "binade x - 23"] by (simp add: fl32_def Let_def)
qed

lemma fl32_mono:
  assumes "0 \<le> x" "x \<le> y"
  shows "fl32 x \<le> fl32 y"
proof (cases "x = 0")
  case True
  then show ?thesis using fl32_nonneg [of y] assms by (simp add: fl32_zero)
next
  case False
  then have x: "0 < x" and y: "0 < y" using assms by simp_all
  have le: "binade x \<le> binade y" using assms by (intro binade_mono) simp
  show ?thesis
  proof (cases "binade x = binade y")
    case True
    let ?u = "pow2 (binade y - 23)"
    have u: "0 < ?u" by (rule pow2_pos)
    have "x / ?u \<le> y / ?u" using assms(2) u by (simp add: divide_right_mono)
    then have "rne (x / ?u) \<le> rne (y / ?u)" by (rule rne_mono)
    then have "?u * of_int (rne (x / ?u)) \<le> ?u * of_int (rne (y / ?u))"
      using u by (simp add: mult_left_mono)
    then show ?thesis by (simp add: fl32_def Let_def True)
  next
    case False
    then have lt: "binade x < binade y" using le by simp
    then have nx: "binade x < 127" using binade_range(2) [of y] by simp
    have ny: "- 126 < binade y" using lt binade_range(1) [of x] by simp
    have "fl32 x \<le> pow2 (binade x + 1)" by (rule fl32_upper [OF x nx])
    also have "\<dots> \<le> pow2 (binade y)" using lt by (simp add: pow2_le_iff)
    also have "\<dots> \<le> fl32 y" by (rule fl32_lower [OF y ny])
    finally show ?thesis .
  qed
qed

lemma fl32_error:
  "\<bar>fl32 x - x\<bar> \<le> pow2 (binade x - 23) / 2"
proof -
  let ?u = "pow2 (binade x - 23)"
  have u: "0 < ?u" by (rule pow2_pos)
  have "fl32 x - x = ?u * (of_int (rne (x / ?u)) - x / ?u)"
    using u by (simp add: fl32_def Let_def right_diff_distrib)
  then have "\<bar>fl32 x - x\<bar> = ?u * \<bar>of_int (rne (x / ?u)) - x / ?u\<bar>"
    using u by (simp add: abs_mult)
  also have "\<dots> \<le> ?u * (1 / 2)"
    using u rne_error [of "x / ?u"] by (simp only: mult_le_cancel_left_pos)
  finally show ?thesis by simp
qed

lemma fl32_eval:
  assumes "pow2 e \<le> \<bar>x\<bar>" "\<bar>x\<bar> < pow2 (e + 1)" "- 126 \<le> e" "e \<le> 127"
  shows "fl32 x = pow2 (e - 23) * of_int (rne (x / pow2 (e - 23)))"
  by (simp add: fl32_def Let_def binade_eqI [OF assms])

lemma fl32_one: "fl32 1 = 1"
  using fl32_eval [of 0 1] by (simp add: rne_def pow2_def)

lemma fl32_half: "fl32 (1 / 2) = 1 / 2"
  using fl32_eval [of "- 1" "1 / 2"] by (simp add: rne_def pow2_def)

lemma fl32_0_4: "fl32 (2 / 5) = 13421773 / 33554432"
  using fl32_eval [of "- 2" "2 / 5"] by (simp add: rne_def pow2_def)

lemma fl32_0_4f: "fl32 (13421773 / 33554432) = 13421773 / 33554432"
  using fl32_eval [of "- 2" "13421773 / 33554432"] by (simp add: rne_def pow2_def)

lemma fl32_0_9: "fl32 (30198989 / 33554432) = 7549747 / 8388608"
  using fl32_eval [of "- 1" "30198989 / 33554432"] by (simp add: rne_def pow2_def)

lemma fl32_32767: "fl32 32767 = 32767"
  using fl32_eval [of 14 32767] by (simp add: rne_def pow2_def)

text \<open>A number below \<open>2 ^ 24\<close> is a binary32 number.\<close>

lemma fl32_nat_exact:
  assumes "r < 2 ^ 24"
  shows "fl32 (real r) = real r"
proof (cases "r = 0")
  case True
  then show ?thesis by (simp add: fl32_zero)
next
  case False
  let ?e = "binade (real r)"
  have "pow2 0 \<le> \<bar>real r\<bar>" using False by (simp add: pow2_def)
  then have lo: "0 \<le> ?e" by (intro binade_ge) simp_all
  then have "pow2 ?e \<le> \<bar>real r\<bar>" by (intro binade_lower) simp
  also have "\<bar>real r\<bar> < pow2 24" using assms by (simp add: pow2_def)
  finally have "pow2 ?e < pow2 24" .
  then have hi: "?e \<le> 23" by (simp add: pow2_less_iff)
  let ?k = "nat (23 - ?e)"
  have ulp: "pow2 (?e - 23) * 2 ^ ?k = 1"
    using hi by (simp add: pow2_def)
  then have "real r / pow2 (?e - 23) = real r * 2 ^ ?k"
    using pow2_pos [of "?e - 23"] by (simp add: field_simps)
  also have "\<dots> = of_int (int r * 2 ^ ?k)" by simp
  finally have "rne (real r / pow2 (?e - 23)) = int r * 2 ^ ?k"
    by (simp only: rne_of_int)
  then have "fl32 (real r) = pow2 (?e - 23) * (real r * 2 ^ ?k)"
    by (simp add: fl32_def Let_def)
  also have "\<dots> = real r * (pow2 (?e - 23) * 2 ^ ?k)" by (simp only: mult_ac)
  finally show ?thesis by (simp only: ulp mult_1_right)
qed

lemma fl32_unit_error:
  assumes "0 \<le> x" "x \<le> 1"
  shows "\<bar>fl32 x - x\<bar> \<le> 1 / 2 ^ 25"
proof (cases "x = 1")
  case True
  then show ?thesis by (simp add: fl32_one)
next
  case False
  have "binade x \<le> - 1"
  proof (rule ccontr)
    assume "\<not> binade x \<le> - 1"
    then have "- 126 < binade x" "0 \<le> binade x" by simp_all
    then have "pow2 0 \<le> pow2 (binade x)" "pow2 (binade x) \<le> \<bar>x\<bar>"
      using binade_lower [of x] by (simp_all add: pow2_le_iff)
    then show False using assms False by (simp add: pow2_def)
  qed
  then have "pow2 (binade x - 23) \<le> pow2 (- 24)" by (simp add: pow2_le_iff)
  then show ?thesis using fl32_error [of x] by (simp add: pow2_def)
qed

section \<open>Construction\<close>

lemma rand_state_Suc: "rand_state rand (Suc k) g = snd (rand (rand_state rand k g))"
  by (simp add: rand_state_def)

lemma rand_state_add: "rand_state rand j (rand_state rand k g) = rand_state rand (k + j) g"
  by (simp add: rand_state_def funpow_add add.commute)

lemma randomize_closed_form:
  assumes "count \<le> length pValues"
  shows "randomize RAND_MAX rand pValues count g =
           Some (map (drawn RAND_MAX rand g) [0..<count] @ drop count pValues,
                 rand_state rand count g)"
proof -
  let ?I = "\<lambda>k t. t = (map (drawn RAND_MAX rand g) [0..<k] @ drop k pValues, rand_state rand k g)"
  let ?body = "\<lambda>i (p, g). case randomFloat RAND_MAX rand g of (v, g') \<Rightarrow>
           do { p' \<leftarrow> wr p i v; Some (p', g') }"
  have "\<exists>t. for_loop 0 count ?body (pValues, g) = Some t \<and> ?I count t"
  proof (rule for_loop_invariant [where I = ?I])
    show "?I 0 (pValues, g)" by (simp add: rand_state_def)
    show "0 \<le> count" by simp
    fix k t assume k: "k < count" and t: "?I k t"
    have w: "wr (map (drawn RAND_MAX rand g) [0..<k] @ drop k pValues) k (drawn RAND_MAX rand g k)
               = Some (map (drawn RAND_MAX rand g) [0..<Suc k] @ drop (Suc k) pValues)"
      using k assms by (simp add: wr_in prefix_update del: upt_Suc)
    have rf: "randomFloat RAND_MAX rand (rand_state rand k g)
                = (drawn RAND_MAX rand g k, rand_state rand (Suc k) g)"
      by (simp add: drawn_def randomFloat_def rand_state_Suc split: prod.splits)
    have "?body k t = Some (map (drawn RAND_MAX rand g) [0..<Suc k] @ drop (Suc k) pValues,
                            rand_state rand (Suc k) g)"
      unfolding t by (simp add: rf w del: upt_Suc)
    then show "\<exists>t'. ?body k t = Some t' \<and> ?I (Suc k) t'" by simp
  qed
  then show ?thesis unfolding randomize_def by blast
qed

text \<open>
  The constructor always returns: the weights are the first \<open>size_t_mul n_in n_out\<close>
  numbers drawn, the biases the next \<open>n_out\<close>.
\<close>

lemma Layer_ctor_closed_form:
  "Layer_ctor RAND_MAX rand inputCount outputCount g =
     Some (\<lparr>m_inputCount = inputCount, m_outputCount = outputCount,
            m_pWeights = map (drawn RAND_MAX rand g) [0..<size_t_mul inputCount outputCount],
            m_pBiases = map (\<lambda>k. drawn RAND_MAX rand g (size_t_mul inputCount outputCount + k))
                          [0..<outputCount]\<rparr>,
           rand_state rand (size_t_mul inputCount outputCount + outputCount) g)"
proof -
  let ?c = "size_t_mul inputCount outputCount"
  have 1: "randomize RAND_MAX rand (new_float ?c) ?c g
             = Some (map (drawn RAND_MAX rand g) [0..<?c], rand_state rand ?c g)"
    using randomize_closed_form [of ?c "new_float ?c" RAND_MAX rand g]
    by (simp add: new_float_def)
  have 2: "randomize RAND_MAX rand (new_float outputCount) outputCount (rand_state rand ?c g)
             = Some (map (\<lambda>k. drawn RAND_MAX rand g (?c + k)) [0..<outputCount],
                     rand_state rand (?c + outputCount) g)"
    using randomize_closed_form [of outputCount "new_float outputCount" RAND_MAX rand
        "rand_state rand ?c g"]
    by (simp add: new_float_def drawn_def rand_state_add)
  show ?thesis
    unfolding Layer_ctor_def by (simp add: 1 2 Let_def)
qed

text \<open>
  The constructor establishes the size invariant, unless the product of the widths
  wraps around.
\<close>

lemma Layer_ctor_wf:
  assumes "inputCount * outputCount < 2 ^ 64"
    and "Layer_ctor RAND_MAX rand inputCount outputCount g = Some (L, g')"
  shows "wf_Layer L" "m_inputCount L = inputCount" "m_outputCount L = outputCount"
  using assms unfolding Layer_ctor_closed_form
  by (auto simp: wf_Layer_def size_t_mul_small)

lemma randomFloat_eq:
  "randomFloat RAND_MAX rand g
     = (init_value (unit_sample RAND_MAX (fst (rand g))), snd (rand g))"
  by (simp add: randomFloat_def init_value_def unit_sample_def split: prod.splits)

lemma drawn_eq:
  "drawn RAND_MAX rand g k = init_value (unit_sample RAND_MAX (drawn_number rand g k))"
  by (simp add: drawn_def drawn_number_def randomFloat_eq)

text \<open>
  The sample: \<open>0\<close> when \<open>rand\<close> returns \<open>0\<close>, \<open>1\<close> when it returns \<open>RAND_MAX\<close>, and
  nondecreasing in the number returned, so it lies in the closed interval \<open>[0, 1]\<close>.
\<close>

lemma fl32_RAND_MAX_pos:
  assumes "0 < RAND_MAX"
  shows "1 \<le> fl32 (real RAND_MAX)"
proof -
  have "fl32 1 \<le> fl32 (real RAND_MAX)"
    using assms by (intro fl32_mono) simp_all
  then show ?thesis by (simp add: fl32_one)
qed

lemma unit_sample_0: "unit_sample RAND_MAX 0 = 0"
  by (simp add: unit_sample_def fl32_zero)

lemma unit_sample_RAND_MAX:
  assumes "0 < RAND_MAX"
  shows "unit_sample RAND_MAX RAND_MAX = 1"
  using fl32_RAND_MAX_pos [OF assms] by (simp add: unit_sample_def fl32_one)

lemma unit_sample_mono:
  assumes "0 < RAND_MAX" "r \<le> r'"
  shows "unit_sample RAND_MAX r \<le> unit_sample RAND_MAX r'"
proof -
  have d: "0 < fl32 (real RAND_MAX)" using fl32_RAND_MAX_pos [OF assms(1)] by simp
  have "fl32 (real r) \<le> fl32 (real r')" using assms(2) by (intro fl32_mono) simp_all
  then have "fl32 (real r) / fl32 (real RAND_MAX) \<le> fl32 (real r') / fl32 (real RAND_MAX)"
    using d by (simp add: divide_right_mono)
  moreover have "0 \<le> fl32 (real r) / fl32 (real RAND_MAX)"
    using d fl32_nonneg [of "real r"] by simp
  ultimately show ?thesis unfolding unit_sample_def by (intro fl32_mono)
qed

lemma unit_sample_range:
  assumes "0 < RAND_MAX" "r \<le> RAND_MAX"
  shows "0 \<le> unit_sample RAND_MAX r" "unit_sample RAND_MAX r \<le> 1"
  using unit_sample_mono [OF assms(1), of 0 r] unit_sample_mono [OF assms]
  by (simp_all add: unit_sample_0 unit_sample_RAND_MAX [OF assms(1)])

text \<open>
  When \<open>RAND_MAX\<close> is below \<open>2 ^ 24\<close> (it is \<open>32767\<close> in some C libraries), the two
  conversions are exact, the sample is the binary32 number nearest to \<open>r / RAND_MAX\<close>,
  and distinct numbers give distinct samples: the sample takes each of its
  \<open>RAND_MAX + 1\<close> values as often as \<^verbatim>\<open>rand()\<close> returns the number it is made from.
\<close>

lemma unit_sample_nearest:
  assumes "RAND_MAX < 2 ^ 24" "0 < RAND_MAX" "r \<le> RAND_MAX"
  shows "unit_sample RAND_MAX r = fl32 (real r / real RAND_MAX)"
    and "\<bar>unit_sample RAND_MAX r - real r / real RAND_MAX\<bar> \<le> 1 / 2 ^ 25"
proof -
  have r: "r < 2 ^ 24" using assms by simp
  show eq: "unit_sample RAND_MAX r = fl32 (real r / real RAND_MAX)"
    by (simp add: unit_sample_def fl32_nat_exact [OF r] fl32_nat_exact [OF assms(1)])
  have "0 \<le> real r / real RAND_MAX" "real r / real RAND_MAX \<le> 1"
    using assms by simp_all
  then show "\<bar>unit_sample RAND_MAX r - real r / real RAND_MAX\<bar> \<le> 1 / 2 ^ 25"
    unfolding eq by (rule fl32_unit_error)
qed

lemma unit_sample_strict_mono:
  assumes "RAND_MAX < 2 ^ 24" "r < r'" "r' \<le> RAND_MAX"
  shows "unit_sample RAND_MAX r < unit_sample RAND_MAX r'"
proof -
  have pos: "0 < RAND_MAX" using assms by simp
  let ?q = "real r / real RAND_MAX" and ?q' = "real r' / real RAND_MAX"
  have "real r + 1 \<le> real r'" using assms(2) by simp
  then have "(real r + 1) / real RAND_MAX \<le> ?q'"
    using pos by (simp add: divide_right_mono)
  then have gap: "?q + 1 / real RAND_MAX \<le> ?q'" by (simp add: add_divide_distrib)
  have "real RAND_MAX < 16777216" using assms(1) by simp
  then have "1 / 16777216 < 1 / real RAND_MAX"
    using pos by (simp add: field_simps)
  moreover have "\<bar>unit_sample RAND_MAX r - ?q\<bar> \<le> 1 / 33554432"
    using unit_sample_nearest(2) [OF assms(1) pos, of r] assms by simp
  moreover have "\<bar>unit_sample RAND_MAX r' - ?q'\<bar> \<le> 1 / 33554432"
    using unit_sample_nearest(2) [OF assms(1) pos assms(3)] by simp
  ultimately show ?thesis using gap by linarith
qed

text \<open>
  The parameter made from a sample \<open>u\<close> of \<open>[0, 1]\<close>: nondecreasing in \<open>u\<close>, between
  \<open>0.5\<close> and the binary32 number \<open>7549747 / 8388608\<close> (bits \<^verbatim>\<open>0x3f666666\<close>), which is
  below \<open>0.9\<close>, and within \<open>2 ^ 24\<close>-th of \<open>0.5 + 0.4 * u\<close>.
\<close>

lemma init_value_mono:
  assumes "0 \<le> u" "u \<le> u'"
  shows "init_value u \<le> init_value u'"
proof -
  have "u * fl32 (2 / 5) \<le> u' * fl32 (2 / 5)" "0 \<le> u * fl32 (2 / 5)"
    using assms by (simp_all add: fl32_0_4 mult_right_mono)
  then have "fl32 (u * fl32 (2 / 5)) \<le> fl32 (u' * fl32 (2 / 5))"
    "0 \<le> fl32 (u * fl32 (2 / 5))"
    by (simp_all add: fl32_mono fl32_nonneg)
  then have "fl32 (fl32 (u * fl32 (2 / 5)) + fl32 (1 / 2))
               \<le> fl32 (fl32 (u' * fl32 (2 / 5)) + fl32 (1 / 2))"
    by (intro fl32_mono) (simp_all add: fl32_half)
  then show ?thesis by (simp add: init_value_def)
qed

lemma init_value_0: "init_value 0 = 1 / 2"
  by (simp add: init_value_def fl32_zero fl32_half)

lemma init_value_1: "init_value 1 = 7549747 / 8388608"
  by (simp add: init_value_def fl32_0_4 fl32_0_4f fl32_half fl32_0_9)

lemma init_value_range:
  assumes "0 \<le> u" "u \<le> 1"
  shows "1 / 2 \<le> init_value u" "init_value u < 9 / 10"
proof -
  show "1 / 2 \<le> init_value u"
    using init_value_mono [of 0 u] assms by (simp add: init_value_0)
  have "init_value u \<le> 7549747 / 8388608"
    using init_value_mono [of u 1] assms by (simp add: init_value_1)
  then show "init_value u < 9 / 10" by simp
qed

lemma init_value_error:
  assumes "0 \<le> u" "u \<le> 1"
  shows "\<bar>init_value u - (0.5 + 0.4 * u)\<bar> \<le> 1 / 2 ^ 24"
proof -
  let ?a = "13421773 / 33554432 :: real"
  let ?p = "fl32 (u * ?a)"
  have ua: "0 \<le> u * ?a" "u * ?a \<le> ?a" using assms by simp_all
  have "binade ?a = - 2" by (rule binade_eqI) (simp_all add: pow2_def)
  then have "binade (u * ?a) \<le> - 2"
    using binade_mono [of "u * ?a" ?a] ua by simp
  then have "pow2 (binade (u * ?a) - 23) \<le> pow2 (- 25)" by (simp add: pow2_le_iff)
  then have e1: "\<bar>?p - u * ?a\<bar> \<le> 1 / 67108864"
    using fl32_error [of "u * ?a"] by (simp add: pow2_def)
  have p: "0 \<le> ?p" "?p \<le> ?a"
    using fl32_nonneg [OF ua(1)] fl32_mono [OF ua] by (simp_all add: fl32_0_4f)
  have "binade (?a + 1 / 2) = - 1" by (rule binade_eqI) (simp_all add: pow2_def)
  then have "binade (?p + 1 / 2) \<le> - 1"
    using binade_mono [of "?p + 1 / 2" "?a + 1 / 2"] p by simp
  then have "pow2 (binade (?p + 1 / 2) - 23) \<le> pow2 (- 24)" by (simp add: pow2_le_iff)
  then have e2: "\<bar>fl32 (?p + 1 / 2) - (?p + 1 / 2)\<bar> \<le> 1 / 33554432"
    using fl32_error [of "?p + 1 / 2"] by (simp add: pow2_def)
  have e3: "\<bar>u * ?a - 2 / 5 * u\<bar> \<le> 1 / 167772160"
    using assms by linarith
  have "\<bar>fl32 (?p + 1 / 2) - (1 / 2 + 2 / 5 * u)\<bar> \<le> 1 / 16777216"
    using e1 e2 e3 by linarith
  moreover have "init_value u = fl32 (?p + 1 / 2)"
    by (simp add: init_value_def fl32_0_4 fl32_half)
  ultimately show ?thesis by simp
qed

lemma drawn_range:
  assumes "\<And>s. fst (rand s) \<le> RAND_MAX" "0 < RAND_MAX"
  shows "\<exists>u. u = unit_sample RAND_MAX (drawn_number rand g k) \<and> 0 \<le> u \<and> u \<le> 1 \<and>
           drawn RAND_MAX rand g k = init_value u \<and>
           \<bar>drawn RAND_MAX rand g k - (0.5 + 0.4 * u)\<bar> \<le> 1 / 2 ^ 24 \<and>
           0.5 \<le> drawn RAND_MAX rand g k \<and> drawn RAND_MAX rand g k < 0.9"
proof -
  let ?u = "unit_sample RAND_MAX (drawn_number rand g k)"
  have r: "drawn_number rand g k \<le> RAND_MAX"
    unfolding drawn_number_def by (rule assms(1))
  have u: "0 \<le> ?u" "?u \<le> 1" using unit_sample_range [OF assms(2) r] by simp_all
  show ?thesis
    using u init_value_range [OF u] init_value_error [OF u] by (simp add: drawn_eq)
qed

lemma rand_state_stub: "rand_state rand_stub k g = g + k"
  by (induction k) (simp_all add: rand_state_def rand_stub_def)

lemma drawn_number_stub: "drawn_number rand_stub g k = (if even (g + k) then 32767 else 0)"
  by (simp add: drawn_number_def rand_state_stub rand_stub_def)

lemma unit_sample_stub: "unit_sample 32767 32767 = 1" "unit_sample 32767 0 = 0"
  by (simp_all add: unit_sample_def fl32_32767 fl32_one fl32_zero)

lemma drawn_stub:
  "drawn 32767 rand_stub g k = (if even (g + k) then 7549747 / 8388608 else 1 / 2)"
  by (simp add: drawn_eq drawn_number_stub unit_sample_stub init_value_0 init_value_1)

text \<open>
  C4 fails as stated. \<^verbatim>\<open>rand()\<close> may return \<open>RAND_MAX\<close>; then the sample is
  \<open>u = RAND_MAX / RAND_MAX = 1\<close>, outside the half-open interval \<open>[0, 1)\<close>. (The
  parameter made from it is the binary32 sum of \<^verbatim>\<open>0.4f\<close> and \<^verbatim>\<open>0.5f\<close>,
  \<open>7549747 / 8388608\<close>, which is below \<open>0.9\<close>.)
\<close>

theorem randomFloat_sample_reaches_one:
  "fst (rand_stub 0) = 32767 \<and>
   Layer_ctor 32767 rand_stub 1 1 0
     = Some (\<lparr>m_inputCount = 1, m_outputCount = 1,
              m_pWeights = [init_value (unit_sample 32767 (fst (rand_stub 0)))],
              m_pBiases = [init_value (unit_sample 32767 (fst (rand_stub 1)))]\<rparr>, 2) \<and>
   unit_sample 32767 (fst (rand_stub 0)) = 1 \<and>
   \<not> (unit_sample 32767 (fst (rand_stub 0)) < 1) \<and>
   init_value (unit_sample 32767 (fst (rand_stub 0))) = 7549747 / 8388608"
  by (simp add: Layer_ctor_closed_form size_t_mul_small drawn_stub rand_state_stub
      upt_0_1 upt_0_2 rand_stub_def unit_sample_stub init_value_0 init_value_1)

text \<open>
  C4, amended. Every cell of \<open>W\<close> and of \<open>b\<close> is initialised with \<open>0.5 + 0.4 * u\<close>
  computed in binary32 (\<open>init_value u\<close>, within \<open>2 ^ 24\<close>-th of the exact value), where
  \<open>u\<close> is the sample \<^verbatim>\<open>rand() / RAND_MAX\<close> for the number that \<^verbatim>\<open>rand()\<close> returned for
  that cell: cell \<open>k\<close> of \<open>W\<close> uses the \<open>k\<close>-th call, cell \<open>k\<close> of \<open>b\<close> the call number
  \<open>|W| + k\<close>. The sample lies in the closed interval \<open>[0, 1]\<close>, and every parameter in the
  half-open interval \<open>[0.5, 0.9)\<close>. The sample is a nondecreasing function of the number
  returned, \<open>0\<close> at \<open>0\<close> and \<open>1\<close> at \<open>RAND_MAX\<close>, so it is spread over \<open>[0, 1]\<close> as
  \<^verbatim>\<open>rand()\<close> is over \<open>0..RAND_MAX\<close>: uniformly, when \<^verbatim>\<open>rand()\<close> is uniform (the
  distribution of \<^verbatim>\<open>rand()\<close> is the C library's). (For any widths; \<open>rand\<close> returns
  numbers up to \<open>RAND_MAX\<close>, and \<open>RAND_MAX\<close> is positive, as the C standard says.)
\<close>

theorem Layer_ctor_parameters_from_samples:
  assumes "\<And>s. fst (rand s) \<le> RAND_MAX" "0 < RAND_MAX"
  shows "\<exists>L g'. Layer_ctor RAND_MAX rand inputCount outputCount g = Some (L, g') \<and>
           length (m_pWeights L) = size_t_mul inputCount outputCount \<and>
           length (m_pBiases L) = outputCount \<and>
           (\<forall>k<size_t_mul inputCount outputCount.
              \<exists>u. u = unit_sample RAND_MAX (drawn_number rand g k) \<and> 0 \<le> u \<and> u \<le> 1 \<and>
                m_pWeights L ! k = init_value u \<and>
                \<bar>m_pWeights L ! k - (0.5 + 0.4 * u)\<bar> \<le> 1 / 2 ^ 24 \<and>
                0.5 \<le> m_pWeights L ! k \<and> m_pWeights L ! k < 0.9) \<and>
           (\<forall>k<outputCount.
              \<exists>u. u = unit_sample RAND_MAX
                         (drawn_number rand g (size_t_mul inputCount outputCount + k)) \<and>
                0 \<le> u \<and> u \<le> 1 \<and>
                m_pBiases L ! k = init_value u \<and>
                \<bar>m_pBiases L ! k - (0.5 + 0.4 * u)\<bar> \<le> 1 / 2 ^ 24 \<and>
                0.5 \<le> m_pBiases L ! k \<and> m_pBiases L ! k < 0.9) \<and>
           unit_sample RAND_MAX 0 = 0 \<and> unit_sample RAND_MAX RAND_MAX = 1 \<and>
           (\<forall>r r'. r \<le> r' \<longrightarrow> unit_sample RAND_MAX r \<le> unit_sample RAND_MAX r')"
proof -
  let ?c = "size_t_mul inputCount outputCount"
  let ?L = "\<lparr>m_inputCount = inputCount, m_outputCount = outputCount,
            m_pWeights = map (drawn RAND_MAX rand g) [0..<?c],
            m_pBiases = map (\<lambda>k. drawn RAND_MAX rand g (?c + k)) [0..<outputCount]\<rparr>"
  note rng = drawn_range [where rand = rand and RAND_MAX = RAND_MAX and g = g, OF assms]
  show ?thesis
  proof (intro exI conjI)
    show "Layer_ctor RAND_MAX rand inputCount outputCount g
            = Some (?L, rand_state rand (?c + outputCount) g)"
      by (rule Layer_ctor_closed_form)
    show "length (m_pWeights ?L) = ?c" by simp
    show "length (m_pBiases ?L) = outputCount" by simp
    show "\<forall>k<?c.
              \<exists>u. u = unit_sample RAND_MAX (drawn_number rand g k) \<and> 0 \<le> u \<and> u \<le> 1 \<and>
                m_pWeights ?L ! k = init_value u \<and>
                \<bar>m_pWeights ?L ! k - (0.5 + 0.4 * u)\<bar> \<le> 1 / 2 ^ 24 \<and>
                0.5 \<le> m_pWeights ?L ! k \<and> m_pWeights ?L ! k < 0.9"
    proof (intro allI impI)
      fix k assume "k < ?c"
      then have eq: "m_pWeights ?L ! k = drawn RAND_MAX rand g k" by simp
      show "\<exists>u. u = unit_sample RAND_MAX (drawn_number rand g k) \<and> 0 \<le> u \<and> u \<le> 1 \<and>
                m_pWeights ?L ! k = init_value u \<and>
                \<bar>m_pWeights ?L ! k - (0.5 + 0.4 * u)\<bar> \<le> 1 / 2 ^ 24 \<and>
                0.5 \<le> m_pWeights ?L ! k \<and> m_pWeights ?L ! k < 0.9"
        unfolding eq by (rule rng)
    qed
    show "\<forall>k<outputCount.
              \<exists>u. u = unit_sample RAND_MAX (drawn_number rand g (?c + k)) \<and>
                0 \<le> u \<and> u \<le> 1 \<and>
                m_pBiases ?L ! k = init_value u \<and>
                \<bar>m_pBiases ?L ! k - (0.5 + 0.4 * u)\<bar> \<le> 1 / 2 ^ 24 \<and>
                0.5 \<le> m_pBiases ?L ! k \<and> m_pBiases ?L ! k < 0.9"
    proof (intro allI impI)
      fix k assume "k < outputCount"
      then have eq: "m_pBiases ?L ! k = drawn RAND_MAX rand g (?c + k)" by simp
      show "\<exists>u. u = unit_sample RAND_MAX (drawn_number rand g (?c + k)) \<and>
                0 \<le> u \<and> u \<le> 1 \<and>
                m_pBiases ?L ! k = init_value u \<and>
                \<bar>m_pBiases ?L ! k - (0.5 + 0.4 * u)\<bar> \<le> 1 / 2 ^ 24 \<and>
                0.5 \<le> m_pBiases ?L ! k \<and> m_pBiases ?L ! k < 0.9"
        unfolding eq by (rule rng)
    qed
    show "unit_sample RAND_MAX 0 = 0" by (rule unit_sample_0)
    show "unit_sample RAND_MAX RAND_MAX = 1" by (rule unit_sample_RAND_MAX [OF assms(2)])
    show "\<forall>r r'. r \<le> r' \<longrightarrow> unit_sample RAND_MAX r \<le> unit_sample RAND_MAX r'"
      using unit_sample_mono [OF assms(2)] by blast
  qed
qed

theorem Layer_ctor_parameters_from_samples_witness:
  "fst (rand_stub 0) \<le> 32767 \<and> (0::nat) < 32767 \<and>
   Layer_ctor 32767 rand_stub 2 1 0
     = Some (\<lparr>m_inputCount = 2, m_outputCount = 1,
              m_pWeights = [7549747 / 8388608, 1 / 2], m_pBiases = [7549747 / 8388608]\<rparr>, 3) \<and>
   unit_sample 32767 (drawn_number rand_stub 0 0) = 1 \<and>
   unit_sample 32767 (drawn_number rand_stub 0 1) = 0 \<and>
   unit_sample 32767 (drawn_number rand_stub 0 2) = 1 \<and>
   init_value 1 = 7549747 / 8388608 \<and> init_value 0 = 1 / 2 \<and>
   (1 / 2 :: real) \<le> 7549747 / 8388608 \<and> (7549747 / 8388608 :: real) < 9 / 10"
proof -
  have h: "fst (rand_stub g) \<le> 32767" for g by (simp add: rand_stub_def)
  have p: "(0::nat) < 32767" by simp
  from Layer_ctor_parameters_from_samples
         [where rand = rand_stub and RAND_MAX = 32767 and inputCount = 2 and outputCount = 1
            and g = 0, OF h p]
  have "\<exists>L g'. Layer_ctor 32767 rand_stub 2 1 0 = Some (L, g')" by blast
  then show ?thesis
    by (simp add: Layer_ctor_closed_form size_t_mul_small drawn_stub rand_state_stub
      upt_0_1 upt_0_2 rand_stub_def drawn_number_stub unit_sample_stub init_value_0
      init_value_1)
qed

text \<open>
  C9 fails as stated. The constructor has no check: with \<open>n_in = 0\<close>, and with
  \<open>n_out = 0\<close>, it returns a layer, and \<open>propagate\<close> runs on it.
\<close>

theorem Layer_ctor_accepts_zero_width:
  "Layer_ctor 32767 rand_stub 0 2 0
     = Some (\<lparr>m_inputCount = 0, m_outputCount = 2, m_pWeights = [], m_pBiases = [7549747 / 8388608, 1 / 2]\<rparr>, 2) \<and>
   Layer_ctor 32767 rand_stub 2 0 0
     = Some (\<lparr>m_inputCount = 2, m_outputCount = 0, m_pWeights = [], m_pBiases = []\<rparr>, 0) \<and>
   propagate exp \<lparr>m_inputCount = 0, m_outputCount = 2, m_pWeights = [], m_pBiases = [7549747 / 8388608, 1 / 2]\<rparr>
       [] [0, 0] = Some [7549747 / 8388608, 1 / 2 :: real] \<and>
   propagate exp \<lparr>m_inputCount = 2, m_outputCount = 0, m_pWeights = [], m_pBiases = []\<rparr>
       [1, 1] [] = Some ([] :: real list)"
  by (simp add: Layer_ctor_closed_form size_t_mul_small drawn_stub rand_state_stub
      upt_0_1 upt_0_2 propagate_closed_form wf_Layer_def weighted_sum_def transfer_def elu_def)

text \<open>
  C9, amended. Constructing a layer with \<open>n_in = 0\<close> or \<open>n_out = 0\<close> succeeds: the layer
  has the widths given, no weights and \<open>n_out\<close> biases, and satisfies the size invariant.
\<close>

theorem Layer_ctor_zero_width_succeeds:
  assumes "inputCount = 0 \<or> outputCount = 0"
  shows "\<exists>L g'. Layer_ctor RAND_MAX rand inputCount outputCount g = Some (L, g') \<and>
           m_inputCount L = inputCount \<and> m_outputCount L = outputCount \<and>
           m_pWeights L = [] \<and> length (m_pBiases L) = outputCount \<and> wf_Layer L"
proof -
  have c: "size_t_mul inputCount outputCount = 0" and p: "inputCount * outputCount = 0"
    using assms by (auto simp: size_t_mul_def)
  show ?thesis
  proof (intro exI conjI)
    show "Layer_ctor RAND_MAX rand inputCount outputCount g
            = Some (\<lparr>m_inputCount = inputCount, m_outputCount = outputCount,
                m_pWeights = map (drawn RAND_MAX rand g) [0..<size_t_mul inputCount outputCount],
                m_pBiases = map (\<lambda>k. drawn RAND_MAX rand g (size_t_mul inputCount outputCount + k))
                          [0..<outputCount]\<rparr>,
               rand_state rand (size_t_mul inputCount outputCount + outputCount) g)"
      by (rule Layer_ctor_closed_form)
  qed (simp_all add: c p wf_Layer_def)
qed

theorem Layer_ctor_zero_width_succeeds_witness:
  "((0::nat) = 0 \<or> (2::nat) = 0) \<and>
   (\<exists>L g'. Layer_ctor 32767 rand_stub 0 2 0 = Some (L, g') \<and>
           m_inputCount L = 0 \<and> m_outputCount L = 2 \<and>
           m_pWeights L = [] \<and> length (m_pBiases L) = 2 \<and> wf_Layer L)"
  using Layer_ctor_zero_width_succeeds
          [where inputCount = 0 and outputCount = 2 and RAND_MAX = 32767 and rand = rand_stub
             and g = 0]
  by simp

text \<open>
  C10. A layer constructed with \<open>n_in = 0\<close> and any \<open>n_out\<close>: the constructor returns it,
  and \<open>propagate\<close> on the empty input and any output array of at least \<open>n_out\<close> cells
  returns, with \<open>outputs[o] = transfer (b[o])\<close> for every unit \<open>o\<close>.
\<close>

theorem propagate_zero_inputs:
  "\<exists>L g'. Layer_ctor RAND_MAX rand 0 outputCount g = Some (L, g') \<and>
      (\<forall>pOutputs. outputCount \<le> length pOutputs \<longrightarrow>
         (\<exists>outs. propagate exp L [] pOutputs = Some outs \<and>
            (\<forall>out<outputCount. outs ! out = transfer exp (m_pBiases L ! out))))"
proof -
  let ?L = "\<lparr>m_inputCount = 0, m_outputCount = outputCount,
            m_pWeights = map (drawn RAND_MAX rand g) [0..<size_t_mul 0 outputCount],
            m_pBiases = map (\<lambda>k. drawn RAND_MAX rand g (size_t_mul 0 outputCount + k))
                          [0..<outputCount]\<rparr>"
  have wf: "wf_Layer ?L" by (simp add: wf_Layer_def size_t_mul_def)
  have run: "\<exists>outs. propagate exp ?L [] pOutputs = Some outs \<and>
            (\<forall>out<outputCount. outs ! out = transfer exp (m_pBiases ?L ! out))"
    if len: "outputCount \<le> length pOutputs" for pOutputs
  proof -
    have "propagate exp ?L [] pOutputs =
            Some (map (\<lambda>out. transfer exp (weighted_sum ?L [] out)) [0..<outputCount]
                  @ drop outputCount pOutputs)"
      using propagate_closed_form [OF wf, of "[]" pOutputs exp] len by simp
    moreover have "weighted_sum ?L [] out = m_pBiases ?L ! out" for out
      by (simp add: weighted_sum_def)
    ultimately show ?thesis by (simp add: nth_append)
  qed
  show ?thesis
  proof (intro exI conjI)
    show "Layer_ctor RAND_MAX rand 0 outputCount g
            = Some (?L, rand_state rand (size_t_mul 0 outputCount + outputCount) g)"
      by (rule Layer_ctor_closed_form)
    show "\<forall>pOutputs. outputCount \<le> length pOutputs \<longrightarrow>
         (\<exists>outs. propagate exp ?L [] pOutputs = Some outs \<and>
            (\<forall>out<outputCount. outs ! out = transfer exp (m_pBiases ?L ! out)))"
      using run by blast
  qed
qed

theorem propagate_zero_inputs_witness:
  "Layer_ctor 32767 rand_stub 0 2 0
     = Some (\<lparr>m_inputCount = 0, m_outputCount = 2, m_pWeights = [], m_pBiases = [7549747 / 8388608, 1 / 2]\<rparr>, 2) \<and>
   propagate exp \<lparr>m_inputCount = 0, m_outputCount = 2, m_pWeights = [], m_pBiases = [7549747 / 8388608, 1 / 2]\<rparr>
      [] [0, 0] = Some [transfer exp (7549747 / 8388608), transfer exp (1 / 2 :: real)]"
proof -
  let ?L = "\<lparr>m_inputCount = 0, m_outputCount = 2, m_pWeights = [],
              m_pBiases = [7549747 / 8388608, 1 / 2 :: real]\<rparr>"
  have c: "Layer_ctor 32767 rand_stub 0 2 0 = Some (?L, 2)"
    by (simp add: Layer_ctor_closed_form size_t_mul_small drawn_stub rand_state_stub
      upt_0_1 upt_0_2)
  from propagate_zero_inputs
         [where RAND_MAX = 32767 and rand = rand_stub and outputCount = 2 and g = 0]
  obtain L g' where L: "Layer_ctor 32767 rand_stub 0 2 0 = Some (L, g')"
    and P: "\<forall>pOutputs. 2 \<le> length pOutputs \<longrightarrow>
         (\<exists>outs. propagate exp L [] pOutputs = Some outs \<and>
            (\<forall>out<2. outs ! out = transfer exp (m_pBiases L ! out)))"
    by blast
  have "L = ?L" using L c by simp
  with P [rule_format, of "[0, 0]"]
  obtain outs where o: "propagate exp ?L [] [0, 0] = Some outs"
    and v: "\<forall>out<2. outs ! out = transfer exp (m_pBiases ?L ! out)"
    by auto
  have "length outs = 2"
    using o propagate_closed_form [of ?L "[]" "[0, 0]" exp] by (auto simp: wf_Layer_def)
  moreover have "outs ! 0 = transfer exp (7549747 / 8388608)" "outs ! 1 = transfer exp (1 / 2)"
    using v by (simp_all add: numeral_2_eq_2)
  ultimately have "outs = [transfer exp (7549747 / 8388608), transfer exp (1 / 2)]"
    by (intro nth_equalityI) (auto simp: less_Suc_eq numeral_2_eq_2)
  then show ?thesis using o c by simp
qed

section \<open>train\<close>

lemma train_epochs_overflow:
  assumes "nat INT_MAX < epochCount" "0 \<le> epoch" "epoch \<le> INT_MAX"
  shows "train_epochs body epochCount epoch s = None"
  using assms(2,3)
proof (induction "nat (INT_MAX - epoch)" arbitrary: epoch s)
  case 0
  then have e: "epoch = INT_MAX" by simp
  have "size_t_of_int epoch < epochCount"
    using assms(1) by (simp add: e size_t_of_int_def INT_MAX_def)
  then show ?case
    by (subst train_epochs.simps) (simp add: e split: option.splits)
next
  case (Suc d)
  then have lt: "epoch < INT_MAX" by simp
  have "size_t_of_int epoch = nat epoch"
    using Suc.prems by (simp add: size_t_of_int_def INT_MAX_def)
  then have c: "size_t_of_int epoch < epochCount"
    using assms(1) Suc.prems by simp
  have ih: "train_epochs body epochCount (epoch + 1) s' = None" for s'
    using Suc.hyps(2) Suc.prems lt by (intro Suc.hyps(1)) simp_all
  show ?case
    by (subst train_epochs.simps) (simp add: c lt ih split: option.splits)
qed

lemma train_epochs_invariant:
  assumes "I i s" and "i \<le> epochCount" and "epochCount \<le> nat INT_MAX"
    and "\<And>k t. i \<le> k \<Longrightarrow> k < epochCount \<Longrightarrow> I k t \<Longrightarrow> \<exists>t'. body (int k) t = Some t' \<and> I (Suc k) t'"
  shows "\<exists>t. train_epochs body epochCount (int i) s = Some t \<and> I epochCount t"
  using assms(1,2,4)
proof (induction "epochCount - i" arbitrary: i s)
  case 0
  then have "i = epochCount" by simp
  moreover have "size_t_of_int (int epochCount) = epochCount"
    using assms(3) by (simp add: size_t_of_int_def INT_MAX_def)
  ultimately show ?case
    using 0 by (subst train_epochs.simps) simp
next
  case (Suc d)
  then have lt: "i < epochCount" by simp
  have conv: "size_t_of_int (int i) = i"
    using lt assms(3) by (simp add: size_t_of_int_def INT_MAX_def)
  have im: "int i < INT_MAX" using lt assms(3) by simp
  from Suc.prems(3)[OF le_refl lt Suc.prems(1)]
  obtain t' where t': "body (int i) s = Some t'" "I (Suc i) t'" by blast
  have "\<exists>t. train_epochs body epochCount (int (Suc i)) t' = Some t \<and> I epochCount t"
  proof (rule Suc.hyps(1))
    show "d = epochCount - Suc i" using Suc.hyps(2) by simp
    show "I (Suc i) t'" by fact
    show "Suc i \<le> epochCount" using lt by simp
    show "\<And>k t. Suc i \<le> k \<Longrightarrow> k < epochCount \<Longrightarrow> I k t \<Longrightarrow> \<exists>t'. body (int k) t = Some t' \<and> I (Suc k) t'"
      using Suc.prems(3) by simp
  qed
  then have "\<exists>t. train_epochs body epochCount (int i + 1) t' = Some t \<and> I epochCount t"
    by (simp add: add.commute)
  then show ?case
    using lt conv im t' by (subst train_epochs.simps) simp
qed

lemma slice_fits:
  assumes "Suc t * n \<le> length xs"
  shows "t * n \<le> length xs" "n \<le> length (drop (t * n) xs)"
  using assms by simp_all

text \<open>
  One example: the body of the loop does what step 1 to 4 of the specification say,
  the hidden deltas taken from the output layer before its update.
\<close>

lemma train_example_refines:
  fixes s :: "'a::{zero,one,plus,minus,times,ord} train_frame"
  assumes ok: "frame_ok ni nh no s"
    and ins: "Suc test * ni \<le> length pAllInputs"
    and exps: "Suc test * no \<le> length pAllExpectedOutputs"
  shows "\<exists>s'. train_example expf pAllInputs pAllExpectedOutputs ni no fLearningRate test s = Some s' \<and>
           frame_ok ni nh no s' \<and> console s' = console s \<and>
           (this s', fTotalQuadraticError_loc s') =
             (case spec_train_example expf fLearningRate (this s)
                     (drop (test * ni) pAllInputs) (drop (test * no) pAllExpectedOutputs) of
                (N', squaredError) \<Rightarrow> (N', fTotalQuadraticError_loc s + squaredError))"
proof -
  let ?H = "m_hiddenLayer (this s)" and ?O = "m_outputLayer (this s)"
  let ?pin = "drop (test * ni) pAllInputs" and ?pex = "drop (test * no) pAllExpectedOutputs"
  let ?hv = "layer_outputs expf ?H ?pin"
  let ?ov = "layer_outputs expf ?O ?hv"
  let ?od = "output_deltas expf ?O ?ov ?pex"
  let ?e = "squared_error_sum ?ov ?pex (m_outputCount ?O)"
  let ?hd = "hidden_deltas expf ?H ?O ?od ?hv"
  let ?O' = "updated_layer ?O ?hv ?od fLearningRate"
  let ?H' = "updated_layer ?H ?pin ?hd fLearningRate"
  have wfH: "wf_Layer ?H" and wfO: "wf_Layer ?O" and link: "m_inputCount ?O = nh"
    and dims: "m_inputCount ?H = ni" "m_outputCount ?H = nh" "m_outputCount ?O = no"
    and lens: "length (pHiddenValues_loc s) = nh" "length (pHiddenDeltas_loc s) = nh"
      "length (pOutputValues_loc s) = no" "length (pOutputDeltas_loc s) = no"
    using ok by (simp_all add: frame_ok_def net_ok_def)
  have len_hv: "length ?hv = nh" and len_ov: "length ?ov = no"
    and len_od: "length ?od = no" and len_hd: "length ?hd = nh"
    using dims by (simp_all add: layer_outputs_def output_deltas_def hidden_deltas_def)
  have a1: "ptr_add pAllInputs (test * ni) = Some ?pin"
    using slice_fits(1) [OF ins] by (simp add: ptr_add_in)
  have a2: "ptr_add pAllExpectedOutputs (test * no) = Some ?pex"
    using slice_fits(1) [OF exps] by (simp add: ptr_add_in)
  have a3: "propagate expf ?H ?pin (pHiddenValues_loc s) = Some ?hv"
    using propagate_closed_form [OF wfH, of ?pin "pHiddenValues_loc s" expf] slice_fits(2) [OF ins]
      dims lens by (simp add: layer_outputs_def)
  have a4: "propagate expf ?O ?hv (pOutputValues_loc s) = Some ?ov"
    using propagate_closed_form [OF wfO, of ?hv "pOutputValues_loc s" expf] link len_hv dims lens
    by (simp add: layer_outputs_def)
  have a5: "computeOutputDeltas expf ?O ?ov ?pex (pOutputDeltas_loc s) = Some (?od, ?e)"
    using computeOutputDeltas_closed_form [of ?O ?ov ?pex "pOutputDeltas_loc s" expf]
      slice_fits(2) [OF exps] len_ov dims lens
    by (simp add: output_deltas_def)
  have W: "m_outputCount ?H * m_outputCount ?O \<le> length (m_pWeights ?O)"
    using wfO link dims by (simp add: wf_Layer_def)
  have a6: "computeDeltas expf ?H ?O ?od ?hv (pHiddenDeltas_loc s) = Some ?hd"
    using computeDeltas_closed_form [of ?O ?od ?H ?hv "pHiddenDeltas_loc s" expf, OF _ W]
      len_od len_hv dims lens
    by (simp add: hidden_deltas_def)
  have a7: "updateWeights ?O ?hv ?od fLearningRate = Some ?O'"
    by (rule updateWeights_updated_layer [OF wfO]) (simp_all add: link len_hv len_od dims)
  have a8: "updateWeights ?H ?pin ?hd fLearningRate = Some ?H'"
    by (rule updateWeights_updated_layer [OF wfH])
       (use slice_fits(2) [OF ins] in \<open>simp_all add: len_hd dims\<close>)
  let ?s' = "s\<lparr>this := \<lparr>m_hiddenLayer = ?H', m_outputLayer = ?O'\<rparr>,
                pHiddenValues_loc := ?hv, pHiddenDeltas_loc := ?hd,
                pOutputValues_loc := ?ov, pOutputDeltas_loc := ?od,
                fTotalQuadraticError_loc := fTotalQuadraticError_loc s + ?e\<rparr>"
  have run: "train_example expf pAllInputs pAllExpectedOutputs ni no fLearningRate test s = Some ?s'"
    unfolding train_example_def
    by (simp add: a1 a2 a3 a4 a5 a6 a7 a8 Let_def)
  have ok': "frame_ok ni nh no ?s'"
    using wfH wfO link dims len_hv len_hd len_ov len_od
    by (simp add: frame_ok_def net_ok_def updated_layer_shape)
  have spec: "spec_train_example expf fLearningRate (this s) ?pin ?pex
                = (\<lparr>m_hiddenLayer = ?H', m_outputLayer = ?O'\<rparr>, ?e)"
    by (simp add: spec_train_example_def Let_def)
  show ?thesis
    using run ok' by (simp add: spec)
qed

lemma train_tests_refine:
  fixes s :: "'a::{zero,one,plus,minus,times,ord} train_frame"
  assumes ok: "frame_ok ni nh no s"
    and ins: "testCount * ni \<le> length pAllInputs"
    and exps: "testCount * no \<le> length pAllExpectedOutputs"
    and zero: "fTotalQuadraticError_loc s = 0"
  shows "\<exists>t. for_loop 0 testCount
                (train_example expf pAllInputs pAllExpectedOutputs ni no fLearningRate) s = Some t \<and>
           frame_ok ni nh no t \<and> console t = console s \<and>
           (this t, fTotalQuadraticError_loc t) =
             spec_epoch expf fLearningRate pAllInputs pAllExpectedOutputs testCount (this s)"
proof -
  let ?step = "\<lambda>(N, err) t.
              case spec_train_example expf fLearningRate N
                     (drop (t * m_inputCount (m_hiddenLayer N)) pAllInputs)
                     (drop (t * m_outputCount (m_outputLayer N)) pAllExpectedOutputs) of
                (N', squaredError) \<Rightarrow> (N', err + squaredError)"
  let ?I = "\<lambda>k t. frame_ok ni nh no t \<and> console t = console s \<and>
              (this t, fTotalQuadraticError_loc t) = foldl ?step (this s, 0) [0..<k]"
  have "\<exists>t. for_loop 0 testCount
                (train_example expf pAllInputs pAllExpectedOutputs ni no fLearningRate) s = Some t \<and>
            ?I testCount t"
  proof (rule for_loop_invariant [where I = ?I])
    show "?I 0 s" using ok zero by simp
    show "0 \<le> testCount" by simp
    fix k t assume k: "k < testCount" and I: "?I k t"
    have okt: "frame_ok ni nh no t" using I by simp
    have dims: "m_inputCount (m_hiddenLayer (this t)) = ni"
        "m_outputCount (m_outputLayer (this t)) = no"
      using okt by (simp_all add: frame_ok_def)
    have "Suc k * ni \<le> testCount * ni" "Suc k * no \<le> testCount * no"
      using k by (simp_all del: mult_Suc)
    then have fits: "Suc k * ni \<le> length pAllInputs" "Suc k * no \<le> length pAllExpectedOutputs"
      using ins exps by simp_all
    from train_example_refines [OF okt fits, of expf fLearningRate]
    obtain t' where run: "train_example expf pAllInputs pAllExpectedOutputs ni no fLearningRate k t
                            = Some t'"
      and ok': "frame_ok ni nh no t'" and con: "console t' = console t"
      and res: "(this t', fTotalQuadraticError_loc t') =
             (case spec_train_example expf fLearningRate (this t)
                     (drop (k * ni) pAllInputs) (drop (k * no) pAllExpectedOutputs) of
                (N', squaredError) \<Rightarrow> (N', fTotalQuadraticError_loc t + squaredError))"
      by blast
    have "foldl ?step (this s, 0) [0..<Suc k] = ?step (foldl ?step (this s, 0) [0..<k]) k"
      by simp
    also have "\<dots> = ?step (this t, fTotalQuadraticError_loc t) k" using I by simp
    also have "\<dots> = (this t', fTotalQuadraticError_loc t')"
      unfolding res by (simp add: dims)
    finally have "(this t', fTotalQuadraticError_loc t') = foldl ?step (this s, 0) [0..<Suc k]"
      by simp
    then show "\<exists>t'. train_example expf pAllInputs pAllExpectedOutputs ni no fLearningRate k t
                    = Some t' \<and> ?I (Suc k) t'"
      using run ok' con I by simp
  qed
  then show ?thesis by (simp add: spec_epoch_def)
qed

text \<open>
  Up to \<open>INT_MAX\<close> epochs \<open>train\<close> is the training of the specification, in every
  arithmetic: for a network with its invariant and example arrays of \<open>testCount\<close>
  examples, it returns, after exactly \<open>epochCount\<close> epochs over the examples
  \<open>0, \<dots>, testCount - 1\<close> in this order, with one printed line per epoch.
\<close>

lemma train_refines_spec:
  fixes N :: "'a::{zero,one,plus,minus,times,ord} NeuralNet"
  assumes ok: "net_ok N"
    and ins: "testCount * m_inputCount (m_hiddenLayer N) \<le> length pAllInputs"
    and exps: "testCount * m_outputCount (m_outputLayer N) \<le> length pAllExpectedOutputs"
    and count: "epochCount \<le> 2147483647"
  shows "train expf N pAllInputs pAllExpectedOutputs testCount epochCount fLearningRate
           = Some (spec_train expf fLearningRate pAllInputs pAllExpectedOutputs testCount epochCount N)"
proof -
  let ?ni = "m_inputCount (m_hiddenLayer N)" and ?nh = "m_outputCount (m_hiddenLayer N)"
  let ?no = "m_outputCount (m_outputLayer N)"
  let ?s0 = "\<lparr>this = N,
                pHiddenValues_loc = new_float ?nh, pHiddenDeltas_loc = new_float ?nh,
                pOutputValues_loc = new_float ?no, pOutputDeltas_loc = new_float ?no,
                fTotalQuadraticError_loc = 0, console = []\<rparr> :: 'a train_frame"
  let ?body = "\<lambda>epoch s. do {
                 let s = s\<lparr>fTotalQuadraticError_loc := 0\<rparr>;
                 s \<leftarrow> for_loop 0 testCount
                        (train_example expf pAllInputs pAllExpectedOutputs ?ni ?no
                           fLearningRate) s;
                 Some (s\<lparr>console := console s @ [(epoch, fTotalQuadraticError_loc s)]\<rparr>)
               }"
  let ?estep = "\<lambda>(N, reports) epoch.
              case spec_epoch expf fLearningRate pAllInputs pAllExpectedOutputs testCount N of
                (N', err) \<Rightarrow> (N', reports @ [(int epoch, err)])"
  let ?J = "\<lambda>k t. frame_ok ?ni ?nh ?no t \<and>
              (this t, console t) = foldl ?estep (N, []) [0..<k]"
  have "\<exists>t. train_epochs ?body epochCount (int 0) ?s0 = Some t \<and> ?J epochCount t"
  proof (rule train_epochs_invariant [where I = ?J])
    show "?J 0 ?s0" using ok by (simp add: frame_ok_def new_float_def)
    show "0 \<le> epochCount" by simp
    show "epochCount \<le> nat INT_MAX" using count by (simp add: INT_MAX_def)
    fix k t assume k: "k < epochCount" and J: "?J k t"
    let ?t0 = "t\<lparr>fTotalQuadraticError_loc := 0\<rparr>"
    have ok0: "frame_ok ?ni ?nh ?no ?t0" using J by (simp add: frame_ok_def)
    from train_tests_refine [OF ok0 ins exps, of expf fLearningRate]
    obtain t' where run: "for_loop 0 testCount
                (train_example expf pAllInputs pAllExpectedOutputs ?ni ?no fLearningRate) ?t0 = Some t'"
      and ok': "frame_ok ?ni ?nh ?no t'" and con: "console t' = console t"
      and res: "(this t', fTotalQuadraticError_loc t') =
             spec_epoch expf fLearningRate pAllInputs pAllExpectedOutputs testCount (this t)"
      by auto
    let ?t'' = "t'\<lparr>console := console t' @ [(int k, fTotalQuadraticError_loc t')]\<rparr>"
    have body: "?body (int k) t = Some ?t''" by (simp add: run Let_def)
    have "foldl ?estep (N, []) [0..<Suc k] = ?estep (foldl ?estep (N, []) [0..<k]) k"
      by simp
    also have "\<dots> = ?estep (this t, console t) k" using J by simp
    also have "\<dots> = (this ?t'', console ?t'')"
      using res [symmetric] con by simp
    finally have "(this ?t'', console ?t'') = foldl ?estep (N, []) [0..<Suc k]" by simp
    moreover have "frame_ok ?ni ?nh ?no ?t''" using ok' by (simp add: frame_ok_def)
    ultimately show "\<exists>t'. ?body (int k) t = Some t' \<and> ?J (Suc k) t'"
      using body by blast
  qed
  then obtain t where run: "train_epochs ?body epochCount 0 ?s0 = Some t"
    and res: "(this t, console t) = foldl ?estep (N, []) [0..<epochCount]"
    by auto
  have "train expf N pAllInputs pAllExpectedOutputs testCount epochCount fLearningRate
          = Some (this t, console t)"
    using run unfolding train_def by (simp add: Let_def)
  then show ?thesis by (simp add: spec_train_def res)
qed

text \<open>
  C3 (the code at \<open>epochCount = 2147483649 = INT_MAX + 2\<close>). The counter of the epoch loop
  is an \<^verbatim>\<open>int\<close>, the bound a \<^verbatim>\<open>size_t\<close>: after \<open>2147483648\<close> epochs \<open>++epoch\<close> overflows, and
  the call has no defined result, whatever the network and the examples are. (Where
  the overflow wraps around, the converted counter exceeds the bound and the loop ends
  one epoch short.) The loop over the examples counts with a \<^verbatim>\<open>size_t\<close>.
\<close>

theorem train_epoch_counter_overflows:
  "train expf N pAllInputs pAllExpectedOutputs testCount 2147483649 fLearningRate = None"
proof -
  have "nat INT_MAX < 2147483649" by (simp add: INT_MAX_def)
  then have "train_epochs body 2147483649 0 s = None" for body and s :: "'a train_frame"
    by (rule train_epochs_overflow) (simp_all add: INT_MAX_def)
  then show ?thesis by (simp add: train_def Let_def)
qed

end
